theory Spec2Isabelle
  imports Main "HOL-Library.Char_ord" "HOL-Library.List_Lexorder" "HOL-Library.AList"
begin

section \<open>Strings and byte slices\<close>

text \<open>
  A Go \<open>string\<close> and a Go \<open>[]byte\<close> are both sequences of bytes; \<open>utils.UnsafeBytes\<close>
  converts the one into the other without changing the bytes. Both are \<open>char list\<close> here
  (an Isabelle \<open>char\<close> is one byte), and strings are ordered byte-wise,
  as Go's \<open>sort.Strings\<close> orders them.
\<close>

type_synonym bytes = "char list"

definition UnsafeBytes :: "string \<Rightarrow> bytes" where
  "UnsafeBytes str = str"

text \<open>\<open>strings.Cut(s, sep)\<close> for a one-byte separator: the text before the first
  separator and the text after it (everything and nothing when there is none).\<close>

fun strings_Cut :: "char \<Rightarrow> string \<Rightarrow> string \<times> string" where
  "strings_Cut sep [] = ([], [])"
| "strings_Cut sep (c # cs) =
     (if c = sep then ([], cs)
      else (case strings_Cut sep cs of (before, after) \<Rightarrow> (c # before, after)))"

text \<open>\<open>strings.Join(parts, sep)\<close>.\<close>

fun strings_Join :: "string \<Rightarrow> string list \<Rightarrow> string" where
  "strings_Join sep [] = []"
| "strings_Join sep [p] = p"
| "strings_Join sep (p # q # ps) = p @ sep @ strings_Join sep (q # ps)"

section \<open>Outcomes of a call\<close>

text \<open>
  A call of \<open>Sign\<close> or \<open>Verify\<close> ends in one of three ways: it panics (the process
  aborts), it returns an error value, or it returns normally; this is an \<open>outcome\<close>. A
  function that has no error to return (\<open>New\<close>, \<open>ParseHasher\<close>, the factory of keyed
  hashes) panics or returns: its result is a \<open>panic + 'a\<close>, with \<open>Inl\<close> for the panic.
\<close>

datatype panic =
    KeyLengthPanic        \<comment> \<open>"key must be greater then 32 and less than 64 bytes"\<close>
  | InvalidHasherPanic    \<comment> \<open>"hasher is invalid: check your config"\<close>
  | ExpirationFormatPanic \<comment> \<open>"urlsigner: invalid expiration format ..."\<close>

datatype error =
    ErrMissingSignature
  | ErrInvalidSignature
  | ErrExpired
  | ErrURLParse           \<comment> \<open>the \<open>*url.Error\<close> of \<open>url.Parse\<close>, returned by \<open>Sign\<close>\<close>

datatype 'a outcome = Panic panic | Failed error | Done 'a

section \<open>net/url: query strings\<close>

text \<open>
  \<open>url.Values\<close> is a Go map from a key to the list of its values. It is an association
  list with distinct keys here; the order of the entries carries no meaning, since
  \<open>Encode\<close> sorts the keys.
\<close>

type_synonym Values = "(string \<times> string list) list"

definition isAlnum :: "char \<Rightarrow> bool" where
  "isAlnum c \<longleftrightarrow>
     (CHR ''a'' \<le> c \<and> c \<le> CHR ''z'') \<or> (CHR ''A'' \<le> c \<and> c \<le> CHR ''Z'')
     \<or> (CHR ''0'' \<le> c \<and> c \<le> CHR ''9'')"

text \<open>\<open>shouldEscape(c, encodeQueryComponent)\<close>: everything but the unreserved
  characters of RFC 3986 is escaped in a query component.\<close>

definition shouldEscape :: "char \<Rightarrow> bool" where
  "shouldEscape c \<longleftrightarrow>
     \<not> (isAlnum c \<or> c = CHR ''-'' \<or> c = CHR ''_'' \<or> c = CHR ''.'' \<or> c = CHR ''~'')"

definition upperhex :: "int \<Rightarrow> char" where
  "upperhex n = ''0123456789ABCDEF'' ! nat (n mod 16)"

definition escapeByte :: "char \<Rightarrow> string" where
  "escapeByte c =
     (if c = CHR '' '' then ''+''
      else if shouldEscape c
        then [CHR ''%'', upperhex (of_char c div 16), upperhex (of_char c mod 16)]
      else [c])"

definition QueryEscape :: "string \<Rightarrow> string" where
  "QueryEscape s = concat (map escapeByte s)"

definition ishex :: "char \<Rightarrow> bool" where
  "ishex c \<longleftrightarrow>
     (CHR ''0'' \<le> c \<and> c \<le> CHR ''9'') \<or> (CHR ''a'' \<le> c \<and> c \<le> CHR ''f'')
     \<or> (CHR ''A'' \<le> c \<and> c \<le> CHR ''F'')"

definition unhex :: "char \<Rightarrow> int" where
  "unhex c =
     (if CHR ''0'' \<le> c \<and> c \<le> CHR ''9'' then of_char c - of_char CHR ''0''
      else if CHR ''a'' \<le> c \<and> c \<le> CHR ''f'' then of_char c - of_char CHR ''a'' + 10
      else if CHR ''A'' \<le> c \<and> c \<le> CHR ''F'' then of_char c - of_char CHR ''A'' + 10
      else 0)"

text \<open>\<open>QueryUnescape\<close>: \<open>%XX\<close> is one byte, \<open>+\<close> is a space; a \<open>%\<close> that is not
  followed by two hexadecimal digits is an error (\<open>None\<close>).\<close>

fun QueryUnescape :: "string \<Rightarrow> string option" where
  "QueryUnescape [] = Some []"
| "QueryUnescape (c # cs) =
     (if c = CHR ''%'' then
        (case cs of
           a # b # rest \<Rightarrow>
             (if ishex a \<and> ishex b then
                (case QueryUnescape rest of
                   None \<Rightarrow> None
                 | Some r \<Rightarrow> Some (char_of (unhex a * 16 + unhex b) # r))
              else None)
         | _ \<Rightarrow> None)
      else
        (case QueryUnescape cs of
           None \<Rightarrow> None
         | Some r \<Rightarrow> Some ((if c = CHR ''+'' then CHR '' '' else c) # r)))"

text \<open>\<open>v[key]\<close>: the values of a key, the empty list when the key is absent.\<close>

definition values_lookup :: "Values \<Rightarrow> string \<Rightarrow> string list" where
  "values_lookup v key = (case map_of v key of None \<Rightarrow> [] | Some vs \<Rightarrow> vs)"

text \<open>\<open>Values.Get\<close>: the first value of the key, the empty string when there is none.\<close>

definition values_Get :: "Values \<Rightarrow> string \<Rightarrow> string" where
  "values_Get v key = (case values_lookup v key of [] \<Rightarrow> [] | x # _ \<Rightarrow> x)"

text \<open>\<open>Values.Set\<close>: \<open>v[key] = []string{value}\<close>.\<close>

definition values_Set :: "Values \<Rightarrow> string \<Rightarrow> string \<Rightarrow> Values" where
  "values_Set v key val = AList.update key [val] v"

text \<open>\<open>v[key] = append(v[key], value)\<close>, the step of \<open>parseQuery\<close>.\<close>

definition values_Add :: "Values \<Rightarrow> string \<Rightarrow> string \<Rightarrow> Values" where
  "values_Add v key val = AList.update key (values_lookup v key @ [val]) v"

text \<open>\<open>Values.Del\<close>: \<open>delete(v, key)\<close>.\<close>

definition values_Del :: "Values \<Rightarrow> string \<Rightarrow> Values" where
  "values_Del v key = AList.delete key v"

text \<open>
  One round of the loop of \<open>parseQuery\<close> on the segment between two \<open>&\<close>: a segment
  with a semicolon, an empty segment, and a segment whose key or value does not unescape
  are skipped (the error they set is dropped by \<open>URL.Query\<close>).
\<close>

definition parseSegment :: "Values \<Rightarrow> string \<Rightarrow> Values" where
  "parseSegment m seg =
     (if CHR '';'' \<in> set seg then m
      else if seg = [] then m
      else
        (case strings_Cut CHR ''='' seg of
           (key, val) \<Rightarrow>
             (case QueryUnescape key of
                None \<Rightarrow> m
              | Some key1 \<Rightarrow>
                  (case QueryUnescape val of
                     None \<Rightarrow> m
                   | Some val1 \<Rightarrow> values_Add m key1 val1))))"

text \<open>
  \<open>for query != "" { key, query, _ = strings.Cut(query, "&"); ... }\<close>: the loop of
  \<open>parseQuery\<close>, one segment a round.
\<close>

lemma Cut_snd_length: "length (snd (strings_Cut sep s)) \<le> length s"
  by (induction s) (auto split: prod.splits)

function parseQuery :: "Values \<Rightarrow> string \<Rightarrow> Values" where
  "parseQuery m [] = m"
| "parseQuery m (c # cs) =
     (case strings_Cut CHR ''&'' (c # cs) of (key, rest) \<Rightarrow> parseQuery (parseSegment m key) rest)"
  by pat_completeness auto
termination
proof (relation "measure (\<lambda>(m, q). length q)")
  fix m :: Values and c :: char and cs key rest :: string
  assume "(key, rest) = strings_Cut CHR ''&'' (c # cs)"
  then have "rest = snd (strings_Cut CHR ''&'' (c # cs))"
    by (metis snd_conv)
  then have "length rest \<le> length cs"
    using Cut_snd_length [of "CHR ''&''" cs] by (simp split: prod.splits)
  then show "((parseSegment m key, rest), (m, c # cs)) \<in> measure (\<lambda>(m, q). length q)"
    by simp
qed simp

text \<open>
  \<open>Values.Encode\<close>: the keys are sorted, and each key's values are written in their
  order as \<open>key=value\<close>, both escaped, joined by \<open>&\<close>.
\<close>

definition encodeKey :: "Values \<Rightarrow> string \<Rightarrow> string list" where
  "encodeKey v k = map (\<lambda>val. QueryEscape k @ ''='' @ QueryEscape val) (values_lookup v k)"

definition values_Encode :: "Values \<Rightarrow> string" where
  "values_Encode v = strings_Join ''&'' (concat (map (encodeKey v) (sort (map fst v))))"

section \<open>encoding/base64: \<open>RawURLEncoding\<close>\<close>

text \<open>The URL-safe alphabet, no padding.\<close>

definition encodeURL :: string where
  "encodeURL = ''ABCDEFGHIJKLMNOPQRSTUVWXYZabcdefghijklmnopqrstuvwxyz0123456789-_''"

definition b64char :: "int \<Rightarrow> char" where
  "b64char n = encodeURL ! nat (n mod 64)"

text \<open>
  \<open>EncodeToString\<close>: three bytes make a 24-bit value and four characters; a rest of
  one byte makes two characters and a rest of two bytes three, the missing bits zero.
\<close>

fun EncodeToString :: "bytes \<Rightarrow> string" where
  "EncodeToString [] = []"
| "EncodeToString [a] =
     (let val = of_char a * 65536
      in [b64char (val div 262144), b64char (val div 4096)])"
| "EncodeToString [a, b] =
     (let val = of_char a * 65536 + of_char b * 256
      in [b64char (val div 262144), b64char (val div 4096), b64char (val div 64)])"
| "EncodeToString (a # b # c # rest) =
     (let val = of_char a * 65536 + of_char b * 256 + of_char c
      in [b64char (val div 262144), b64char (val div 4096), b64char (val div 64), b64char val]
         @ EncodeToString rest)"

text \<open>\<open>decodeMap\<close>: the 6-bit value of a character of the alphabet.\<close>

definition decodeMap :: "char \<Rightarrow> int option" where
  "decodeMap c =
     (if CHR ''A'' \<le> c \<and> c \<le> CHR ''Z'' then Some (of_char c - 65)
      else if CHR ''a'' \<le> c \<and> c \<le> CHR ''z'' then Some (of_char c - 97 + 26)
      else if CHR ''0'' \<le> c \<and> c \<le> CHR ''9'' then Some (of_char c - 48 + 52)
      else if c = CHR ''-'' then Some 62
      else if c = CHR ''_'' then Some 63
      else None)"

text \<open>
  The quanta of the decoder: four characters give three bytes; at the end of the input
  two characters give one byte and three give two (the decoder is not strict, so the unused
  low bits may be anything), and a single character is an error.
\<close>

fun decodeQuanta :: "int list \<Rightarrow> bytes option" where
  "decodeQuanta [] = Some []"
| "decodeQuanta [a] = None"
| "decodeQuanta [a, b] =
     (let val = a * 262144 + b * 4096 in Some [char_of (val div 65536)])"
| "decodeQuanta [a, b, c] =
     (let val = a * 262144 + b * 4096 + c * 64
      in Some [char_of (val div 65536), char_of (val div 256)])"
| "decodeQuanta (a # b # c # d # rest) =
     (let val = a * 262144 + b * 4096 + c * 64 + d
      in case decodeQuanta rest of
           None \<Rightarrow> None
         | Some r \<Rightarrow> Some (char_of (val div 65536) # char_of (val div 256) # char_of val # r))"

text \<open>
  \<open>DecodeString\<close>: carriage returns and line feeds are skipped, any other character
  outside the alphabet (the padding character too) is an error.
\<close>

definition DecodeString :: "string \<Rightarrow> bytes option" where
  "DecodeString s =
     (case those (map decodeMap (filter (\<lambda>c. c \<noteq> CHR 0x0A \<and> c \<noteq> CHR 0x0D) s)) of
        None \<Rightarrow> None
      | Some vals \<Rightarrow> decodeQuanta vals)"

section \<open>net/url: URLs\<close>

text \<open>
  \<open>url.URL\<close>. The signer reads and writes \<open>RawQuery\<close> and prints the URL; it never looks
  at the other fields one by one. \<open>Hier\<close> stands for the fields \<open>Scheme\<close>, \<open>Opaque\<close>,
  \<open>User\<close>, \<open>Host\<close>, \<open>Path\<close>, \<open>RawPath\<close> and \<open>OmitHost\<close> and holds the text that
  \<open>String\<close> prints for them (everything before the query); \<open>EscFragment\<close> stands for
  \<open>Fragment\<close> and \<open>RawFragment\<close> and holds what \<open>EscapedFragment\<close> returns.
\<close>

record URL =
  Hier :: string
  ForceQuery :: bool
  RawQuery :: string
  EscFragment :: string

text \<open>\<open>URL.String\<close>: the query follows a \<open>?\<close> when \<open>ForceQuery\<close> is set or \<open>RawQuery\<close>
  is not empty, the fragment follows a \<open>#\<close> when it is not empty.\<close>

definition url_String :: "URL \<Rightarrow> string" where
  "url_String u =
     Hier u
     @ (if ForceQuery u \<or> RawQuery u \<noteq> [] then CHR ''?'' # RawQuery u else [])
     @ (if EscFragment u \<noteq> [] then CHR ''#'' # EscFragment u else [])"

text \<open>\<open>URL.Query\<close>: \<open>ParseQuery(u.RawQuery)\<close> with its error dropped.\<close>

definition url_Query :: "URL \<Rightarrow> Values" where
  "url_Query u = parseQuery [] (RawQuery u)"

definition stringContainsCTLByte :: "string \<Rightarrow> bool" where
  "stringContainsCTLByte s \<longleftrightarrow> (\<exists>b \<in> set s. b < CHR '' '' \<or> b = CHR 0x7F)"

section \<open>The standard library the package is linked with\<close>

text \<open>
  The signer calls into \<open>net/url\<close>, \<open>time\<close> and \<open>crypto/hmac\<close>. What it needs of them and
  is not modelled above is a parameter of the development:
  \<^item> \<open>url_parseHier\<close>: what \<open>url.Parse\<close> makes of the text before the query (scheme,
    authority, path), as the text \<open>String\<close> prints for it, or \<open>None\<close> when \<open>Parse\<close> rejects it;
  \<^item> \<open>url_parseFragment\<close>: the same for the text after \<open>#\<close>;
  \<^item> \<open>time_Now\<close>: \<open>time.Now().UTC()\<close>;
  \<^item> \<open>time_Format\<close>: \<open>t.Format(time.RFC3339Nano)\<close>;
  \<^item> \<open>time_Parse\<close>: \<open>time.Parse(time.RFC3339Nano, s)\<close>, \<open>None\<close> for its error;
  \<^item> \<open>hmac_Sum\<close>: the tag \<open>hmac.New(h, key)\<close> computes for a message.
  An instant is its number of nanoseconds since the Unix epoch and a \<open>time.Duration\<close>
  its number of nanoseconds, so that \<open>t.Add(d)\<close> is \<open>t + d\<close> and \<open>t.Before(u)\<close> is
  \<open>t < u\<close>.
\<close>

type_synonym Time = int
type_synonym Duration = int

datatype hash_alg = SHA256 | SHA512_256 | SHA3_256 | SHA3_512 | BLAKE2b_256

record golib =
  url_parseHier :: "string \<Rightarrow> string option"
  url_parseFragment :: "string \<Rightarrow> string option"
  time_Now :: "unit \<Rightarrow> Time"
  time_Format :: "Time \<Rightarrow> string"
  time_Parse :: "string \<Rightarrow> Time option"
  hmac_Sum :: "hash_alg \<Rightarrow> bytes \<Rightarrow> bytes \<Rightarrow> bytes"

text \<open>
  \<open>url.Parse\<close>: the fragment is cut off at the first \<open>#\<close>; a control byte before it is an
  error; a lone \<open>?\<close> at the very end sets \<open>ForceQuery\<close>, otherwise the query is what
  follows the first \<open>?\<close>.
\<close>

definition url_Parse :: "golib \<Rightarrow> string \<Rightarrow> URL option" where
  "url_Parse L rawURL =
     (case strings_Cut CHR ''#'' rawURL of
        (u, frag) \<Rightarrow>
          if stringContainsCTLByte u then None
          else
            (case (if u \<noteq> [] \<and> last u = CHR ''?'' \<and> count_list u CHR ''?'' = 1
                   then (butlast u, True, [])
                   else (case strings_Cut CHR ''?'' u of (rest, query) \<Rightarrow> (rest, False, query))) of
               (rest, force, query) \<Rightarrow>
                 (case url_parseHier L rest of
                    None \<Rightarrow> None
                  | Some h \<Rightarrow>
                      (if frag = [] then
                         Some \<lparr>Hier = h, ForceQuery = force, RawQuery = query, EscFragment = []\<rparr>
                       else
                         (case url_parseFragment L frag of
                            None \<Rightarrow> None
                          | Some f \<Rightarrow>
                              Some \<lparr>Hier = h, ForceQuery = force, RawQuery = query,
                                    EscFragment = f\<rparr>)))))"

section \<open>utils.ParseHasher\<close>

definition ParseHasher :: "string \<Rightarrow> panic + hash_alg" where
  "ParseHasher algo =
     (if algo = ''sha256'' then Inr SHA256
      else if algo = ''sha512/256'' then Inr SHA512_256
      else if algo = ''sha3-256'' then Inr SHA3_256
      else if algo = ''sha3-512'' then Inr SHA3_512
      else if algo = ''blake2b'' then Inr BLAKE2b_256
      else Inl InvalidHasherPanic)"

section \<open>urlsigner\<close>

text \<open>
  \<open>HMACSigner\<close>: the clock and the factory of keyed hashes. The factory is a closure
  over the algorithm name and the key, and calling it may panic; what it returns is the
  function from a message to its tag (\<open>Write\<close> the message, then \<open>Sum(nil)\<close>).
\<close>

record HMACSigner =
  now :: "unit \<Rightarrow> Time"
  hasher :: "unit \<Rightarrow> panic + (bytes \<Rightarrow> bytes)"

definition Expiration :: string where "Expiration = ''expires''"
definition Signature :: string where "Signature = ''signature''"

text \<open>\<open>New(algo, keyBytes, now...)\<close>; the variadic clock is a list.\<close>

definition New :: "golib \<Rightarrow> string \<Rightarrow> bytes \<Rightarrow> (unit \<Rightarrow> Time) list \<Rightarrow> panic + HMACSigner" where
  "New L algo keyBytes nowArgs =
     (if length keyBytes > 64 \<or> length keyBytes < 32 then Inl KeyLengthPanic
      else
        Inr \<lparr>now = (case nowArgs of [] \<Rightarrow> time_Now L | n # _ \<Rightarrow> n),
             hasher = (\<lambda>_. case ParseHasher algo of
                               Inl p \<Rightarrow> Inl p
                             | Inr h \<Rightarrow> Inr (hmac_Sum L h keyBytes))\<rparr>)"

definition sumURLString :: "HMACSigner \<Rightarrow> string \<Rightarrow> panic + bytes" where
  "sumURLString s str =
     (case hasher s () of
        Inl p \<Rightarrow> Inl p
      | Inr h \<Rightarrow> Inr (h (UnsafeBytes str)))"

definition Sign :: "golib \<Rightarrow> HMACSigner \<Rightarrow> string \<Rightarrow> Duration \<Rightarrow> string outcome" where
  "Sign L s urlString duration =
     (case url_Parse L urlString of
        None \<Rightarrow> Failed ErrURLParse
      | Some u \<Rightarrow>
          (let query = (if duration \<noteq> 0
                        then values_Set (url_Query u) ''expires''
                               (time_Format L (now s () + duration))
                        else url_Query u);
               u1 = u\<lparr>RawQuery := values_Encode query\<rparr>
           in (case sumURLString s (url_String u1) of
                 Inl p \<Rightarrow> Panic p
               | Inr sigBytes \<Rightarrow>
                   (let signature = EncodeToString sigBytes;
                        u2 = (if length (RawQuery u1) > 0
                              then u1\<lparr>RawQuery := (RawQuery u1 @ ''&'' @ Signature @ ''='' @ signature)\<rparr>
                              else u1\<lparr>RawQuery := (Signature @ ''='' @ signature)\<rparr>)
                    in Done (url_String u2)))))"

text \<open>\<open>extractAndDecodeSignature\<close> returns the bytes, the query and the error, as the
  source does; \<open>None\<close> is the nil error.\<close>

definition extractAndDecodeSignature :: "Values \<Rightarrow> bytes \<times> Values \<times> error option" where
  "extractAndDecodeSignature query =
     (let signature = values_Get query Signature in
      if signature = [] then ([], query, Some ErrMissingSignature)
      else
        (case DecodeString signature of
           None \<Rightarrow> ([], query, Some ErrInvalidSignature)
         | Some sigBytes \<Rightarrow> (sigBytes, values_Del query Signature, None)))"

text \<open>\<open>hmac.Equal\<close> is equality of the two byte slices.\<close>

definition verifyMAC :: "HMACSigner \<Rightarrow> string \<Rightarrow> bytes \<Rightarrow> panic + bool" where
  "verifyMAC s original sigBytes =
     (case sumURLString s original of
        Inl p \<Rightarrow> Inl p
      | Inr computed \<Rightarrow> Inr (sigBytes = computed))"

definition verifyExpiration :: "golib \<Rightarrow> HMACSigner \<Rightarrow> Values \<Rightarrow> unit outcome" where
  "verifyExpiration L s query =
     (if length (values_Get query Expiration) = 0 then Done ()
      else
        (case time_Parse L (values_Get query Expiration) of
           None \<Rightarrow> Panic ExpirationFormatPanic
         | Some expires \<Rightarrow> (if expires < now s () then Failed ErrExpired else Done ())))"

text \<open>
  \<open>Verify\<close> takes a pointer and assigns to \<open>u.RawQuery\<close>: the model returns the URL as
  the call leaves it, together with the outcome.
\<close>

definition Verify :: "golib \<Rightarrow> HMACSigner \<Rightarrow> URL \<Rightarrow> URL \<times> unit outcome" where
  "Verify L s u =
     (let query = url_Query u in
      case extractAndDecodeSignature query of
        (sigBytes, query, Some err) \<Rightarrow> (u, Failed err)
      | (sigBytes, query, None) \<Rightarrow>
          let u = u\<lparr>RawQuery := values_Encode query\<rparr> in
          (case verifyMAC s (url_String u) sigBytes of
             Inl p \<Rightarrow> (u, Panic p)
           | Inr ok \<Rightarrow>
               (if \<not> ok then (u, Failed ErrInvalidSignature)
                else (u, verifyExpiration L s query))))"

section \<open>A standard library to run the signer on\<close>

text \<open>
  To evaluate the signer on concrete URLs the parameters need values. The instance below
  is used for that and for nothing else; every general theorem holds for any library.
  \<^item> The clock and the time format are those of the package's tests: the instant of
    \<open>2025-08-29T20:00:00Z\<close>, and RFC 3339 with nanoseconds in UTC as \<open>Format\<close> prints it
    (the year zero-padded to four digits, trailing zeros of the fraction dropped);
    \<open>Parse\<close> reads that form and numeric zone offsets.
  \<^item> \<open>test_parseHier\<close> and \<open>test_parseFragment\<close> keep the text as it is, which is what
    \<open>url.Parse\<close> and \<open>String\<close> do with the URLs evaluated below (lower-case scheme, a
    host name, a path of unreserved characters).
  \<^item> \<open>test_hmac_Sum\<close> is a keyed Adler-32 checksum of four bytes. It is no MAC; it stands
    in for one where a tag has to be computed, and the evaluated examples depend on it
    only through the tags of two messages being equal or different.
\<close>

definition isLeap :: "int \<Rightarrow> bool" where
  "isLeap y \<longleftrightarrow> y mod 4 = 0 \<and> (y mod 100 \<noteq> 0 \<or> y mod 400 = 0)"

definition daysIn :: "int \<Rightarrow> int \<Rightarrow> int" where
  "daysIn y m =
     (if m = 2 then (if isLeap y then 29 else 28)
      else if m = 4 \<or> m = 6 \<or> m = 9 \<or> m = 11 then 30 else 31)"

definition daysFromCivil :: "int \<Rightarrow> int \<Rightarrow> int \<Rightarrow> int" where
  "daysFromCivil y m d =
     (let y1 = (if m \<le> 2 then y - 1 else y);
          era = y1 div 400;
          yoe = y1 - era * 400;
          doy = (153 * (if m > 2 then m - 3 else m + 9) + 2) div 5 + d - 1;
          doe = yoe * 365 + yoe div 4 - yoe div 100 + doy
      in era * 146097 + doe - 719468)"

definition civilFromDays :: "int \<Rightarrow> int \<times> int \<times> int" where
  "civilFromDays z0 =
     (let z = z0 + 719468;
          era = z div 146097;
          doe = z - era * 146097;
          yoe = (doe - doe div 1460 + doe div 36524 - doe div 146096) div 365;
          doy = doe - (365 * yoe + yoe div 4 - yoe div 100);
          mp = (5 * doy + 2) div 153;
          d = doy - (153 * mp + 2) div 5 + 1;
          m = (if mp < 10 then mp + 3 else mp - 9);
          y = yoe + era * 400
      in (if m \<le> 2 then y + 1 else y, m, d))"

fun decimal :: "nat \<Rightarrow> string" where
  "decimal n = (if n < 10 then [char_of (48 + n)] else decimal (n div 10) @ [char_of (48 + n mod 10)])"

definition appendInt :: "int \<Rightarrow> nat \<Rightarrow> string" where
  "appendInt x width =
     (let ds = decimal (nat \<bar>x\<bar>)
      in (if x < 0 then ''-'' else []) @ replicate (width - length ds) CHR ''0'' @ ds)"

fun dropTrailingZeros :: "string \<Rightarrow> string" where
  "dropTrailingZeros s = rev (dropWhile (\<lambda>c. c = CHR ''0'') (rev s))"

definition rfc3339nano_Format :: "Time \<Rightarrow> string" where
  "rfc3339nano_Format t =
     (let secs = t div 1000000000; nsec = t mod 1000000000;
          days = secs div 86400; sod = secs mod 86400;
          ymd = civilFromDays days;
          frac = dropTrailingZeros (appendInt nsec 9)
      in appendInt (fst ymd) 4 @ ''-'' @ appendInt (fst (snd ymd)) 2 @ ''-''
         @ appendInt (snd (snd ymd)) 2 @ ''T'' @ appendInt (sod div 3600) 2 @ '':''
         @ appendInt (sod mod 3600 div 60) 2 @ '':'' @ appendInt (sod mod 60) 2
         @ (if frac = [] then [] else ''.'' @ frac) @ ''Z'')"

definition isDigit :: "char \<Rightarrow> bool" where
  "isDigit c \<longleftrightarrow> CHR ''0'' \<le> c \<and> c \<le> CHR ''9''"

definition atoi :: "string \<Rightarrow> int option" where
  "atoi s =
     (if s \<noteq> [] \<and> list_all isDigit s
      then Some (foldl (\<lambda>n c. n * 10 + (int (of_char c) - 48)) 0 s)
      else None)"

definition parseZone :: "string \<Rightarrow> int option" where
  "parseZone z =
     (if z = ''Z'' then Some 0
      else if length z = 6 \<and> (z ! 0 = CHR ''+'' \<or> z ! 0 = CHR ''-'') \<and> z ! 3 = CHR '':'' then
        (case (atoi (take 2 (drop 1 z)), atoi (drop 4 z)) of
           (Some h, Some m) \<Rightarrow>
             (if h < 24 \<and> m < 60
              then Some ((if z ! 0 = CHR ''-'' then -1 else 1) * (h * 3600 + m * 60))
              else None)
         | _ \<Rightarrow> None)
      else None)"

definition rfc3339nano_Parse :: "string \<Rightarrow> Time option" where
  "rfc3339nano_Parse s =
     (if length s < 20 \<or> s ! 4 \<noteq> CHR ''-'' \<or> s ! 7 \<noteq> CHR ''-'' \<or> s ! 10 \<noteq> CHR ''T''
         \<or> s ! 13 \<noteq> CHR '':'' \<or> s ! 16 \<noteq> CHR '':'' then None
      else
        (let rest = drop 19 s;
             hasFrac = (length rest \<ge> 2 \<and> hd rest = CHR ''.'' \<and> isDigit (rest ! 1));
             fracDigits = (if hasFrac then takeWhile isDigit (tl rest) else []);
             zone = (if hasFrac then dropWhile isDigit (tl rest) else rest)
         in case (atoi (take 4 s), atoi (take 2 (drop 5 s)), atoi (take 2 (drop 8 s)),
                  atoi (take 2 (drop 11 s)), atoi (take 2 (drop 14 s)), atoi (take 2 (drop 17 s)),
                  atoi (take 9 (fracDigits @ ''000000000'')), parseZone zone) of
              (Some y, Some m, Some d, Some hh, Some mi, Some ss, Some ns, Some off) \<Rightarrow>
                (if 1 \<le> m \<and> m \<le> 12 \<and> 1 \<le> d \<and> d \<le> daysIn y m \<and> hh < 24 \<and> mi < 60 \<and> ss < 60
                 then Some ((daysFromCivil y m d * 86400 + hh * 3600 + mi * 60 + ss - off)
                            * 1000000000 + ns)
                 else None)
            | _ \<Rightarrow> None))"

fun adler :: "int \<times> int \<Rightarrow> bytes \<Rightarrow> int \<times> int" where
  "adler (a, b) [] = (a, b)"
| "adler (a, b) (c # cs) = adler ((a + of_char c) mod 65521, (b + (a + of_char c) mod 65521) mod 65521) cs"

definition test_hmac_Sum :: "hash_alg \<Rightarrow> bytes \<Rightarrow> bytes \<Rightarrow> bytes" where
  "test_hmac_Sum h key msg =
     (let ab = adler (case h of SHA256 \<Rightarrow> 1 | SHA512_256 \<Rightarrow> 2 | SHA3_256 \<Rightarrow> 3
                              | SHA3_512 \<Rightarrow> 4 | BLAKE2b_256 \<Rightarrow> 5, 0) (key @ msg)
      in [char_of (snd ab div 256), char_of (snd ab), char_of (fst ab div 256), char_of (fst ab)])"

definition test_clock :: "unit \<Rightarrow> Time" where
  "test_clock = (\<lambda>_. 1756497600000000000)"

definition test_parseHier :: "string \<Rightarrow> string option" where
  "test_parseHier rest = Some rest"

definition test_parseFragment :: "string \<Rightarrow> string option" where
  "test_parseFragment frag = Some frag"

definition test_lib :: golib where
  "test_lib = \<lparr>url_parseHier = test_parseHier, url_parseFragment = test_parseFragment,
               time_Now = test_clock,
               time_Format = rfc3339nano_Format, time_Parse = rfc3339nano_Parse,
               hmac_Sum = test_hmac_Sum\<rparr>"

definition test_key :: bytes where
  "test_key = replicate 32 (CHR 0x00)"

text \<open>The signer that \<open>New("sha256", key, clock)\<close> returns for the key of 32 zero bytes.\<close>

definition test_signer :: HMACSigner where
  "test_signer = \<lparr>now = test_clock, hasher = (\<lambda>_. Inr (test_hmac_Sum SHA256 test_key))\<rparr>"

section \<open>Properties of the query codec\<close>

lemma Cut_notin: "sep \<notin> set a \<Longrightarrow> strings_Cut sep a = (a, [])"
  by (induction a) auto

lemma Cut_append: "sep \<notin> set a \<Longrightarrow> strings_Cut sep (a @ sep # b) = (a, b)"
  by (induction a) auto

text \<open>The bytes \<open>QueryEscape\<close> can write: the unreserved ones, \<open>%\<close> and \<open>+\<close>.\<close>

definition queryByte :: "char \<Rightarrow> bool" where
  "queryByte c \<longleftrightarrow> isAlnum c \<or> c = CHR ''-'' \<or> c = CHR ''_'' \<or> c = CHR ''.'' \<or> c = CHR ''~''
     \<or> c = CHR ''%'' \<or> c = CHR ''+''"

lemma queryByte_plain:
  assumes "queryByte c"
  shows "c \<noteq> CHR ''&''" "c \<noteq> CHR ''=''" "c \<noteq> CHR '';''" "c \<noteq> CHR ''#''" "c \<noteq> CHR ''?''"
    "\<not> c < CHR '' ''" "c \<noteq> CHR 0x7F" "c \<noteq> CHR 0x0A" "c \<noteq> CHR 0x0D"
  using assms by (auto simp: queryByte_def isAlnum_def less_eq_char_def less_char_def)

lemma upperhex_table:
  "list_all (\<lambda>k. isAlnum (upperhex k) \<and> ishex (upperhex k) \<and> unhex (upperhex k) = k) [0..15]"
  by code_simp

lemma upperhex_alnum: "isAlnum (upperhex n)"
proof -
  have "n mod 16 \<in> set [0..15]" by simp
  then have "isAlnum (upperhex (n mod 16))"
    using upperhex_table unfolding list_all_iff by blast
  then show ?thesis by (simp add: upperhex_def)
qed

lemma upperhex_hex:
  assumes "0 \<le> n" "n < 16"
  shows "ishex (upperhex n)" "unhex (upperhex n) = n"
proof -
  have "n \<in> set [0..15]" using assms by simp
  then show "ishex (upperhex n)" "unhex (upperhex n) = n"
    using upperhex_table unfolding list_all_iff by blast+
qed

lemma escapeByte_set: "x \<in> set (escapeByte c) \<Longrightarrow> queryByte x"
  using upperhex_alnum
  by (auto simp: escapeByte_def queryByte_def shouldEscape_def split: if_splits)

lemma QueryEscape_set: "x \<in> set (QueryEscape s) \<Longrightarrow> queryByte x"
  by (auto simp: QueryEscape_def dest: escapeByte_set)

lemma of_char_int_bounds: "0 \<le> (of_char c :: int)" "(of_char c :: int) < 256"
proof -
  have "(of_char c :: int) = int (of_char c)" by (simp add: of_nat_of_char)
  then show "0 \<le> (of_char c :: int)" "(of_char c :: int) < 256"
    using nat_of_char_less_256 [of c] by simp_all
qed

lemma unescape_escapeByte:
  "QueryUnescape (escapeByte c @ rest) = map_option ((#) c) (QueryUnescape rest)"
proof -
  let ?n = "of_char c :: int"
  have b: "0 \<le> ?n div 16" "?n div 16 < 16" "0 \<le> ?n mod 16" "?n mod 16 < 16"
    using of_char_int_bounds [of c] by auto
  have r: "char_of (?n div 16 * 16 + ?n mod 16) = c" by simp
  show ?thesis
  proof (cases "c = CHR '' ''")
    case True
    then show ?thesis by (cases "QueryUnescape rest") (auto simp: escapeByte_def)
  next
    case sp: False
    show ?thesis
    proof (cases "shouldEscape c")
      case True
      then show ?thesis
        using sp upperhex_hex [OF b(1,2)] upperhex_hex [OF b(3,4)] r
        by (cases "QueryUnescape rest") (auto simp: escapeByte_def)
    next
      case False
      then have "c \<noteq> CHR ''%''" "c \<noteq> CHR ''+''"
        by (auto simp: shouldEscape_def isAlnum_def less_eq_char_def)
      then show ?thesis
        using sp False by (cases "QueryUnescape rest") (auto simp: escapeByte_def)
    qed
  qed
qed

lemma QueryUnescape_QueryEscape: "QueryUnescape (QueryEscape s) = Some s"
  by (induction s) (auto simp: QueryEscape_def unescape_escapeByte)

text \<open>
  \<open>Encode\<close> writes one \<open>key=value\<close> for each pair of \<open>values_pairs\<close>, and \<open>parseQuery\<close>
  adds these pairs back one by one. \<open>url.Values\<close> built by the package are well formed:
  no key is listed twice and no key has an empty list of values.
\<close>

definition encodePair :: "string \<times> string \<Rightarrow> string" where
  "encodePair p = QueryEscape (fst p) @ ''='' @ QueryEscape (snd p)"

definition values_pairs :: "Values \<Rightarrow> (string \<times> string) list" where
  "values_pairs v = concat (map (\<lambda>k. map (Pair k) (values_lookup v k)) (sort (map fst v)))"

definition values_wf :: "Values \<Rightarrow> bool" where
  "values_wf v \<longleftrightarrow> distinct (map fst v) \<and> (\<forall>k. map_of v k \<noteq> Some [])"

lemma encodePair_set: "x \<in> set (encodePair p) \<Longrightarrow> queryByte x \<or> x = CHR ''=''"
  by (auto simp: encodePair_def dest: QueryEscape_set)

lemma encodePair_no_amp: "CHR ''&'' \<notin> set (encodePair p)"
  using encodePair_set queryByte_plain(1) by fastforce

lemma encodePair_nonempty: "encodePair p \<noteq> []"
  by (simp add: encodePair_def)

lemma parseSegment_encodePair: "parseSegment m (encodePair (k, x)) = values_Add m k x"
proof -
  have semi: "CHR '';'' \<notin> set (encodePair (k, x))"
    using encodePair_set queryByte_plain(3) by fastforce
  have "CHR ''='' \<notin> set (QueryEscape k)"
    using QueryEscape_set queryByte_plain(2) by blast
  then have c: "strings_Cut CHR ''='' (encodePair (k, x)) = (QueryEscape k, QueryEscape x)"
    by (simp add: encodePair_def Cut_append)
  show ?thesis
    using semi encodePair_nonempty [of "(k, x)"]
    by (simp add: parseSegment_def c QueryUnescape_QueryEscape)
qed

lemma parseSegment_Nil [simp]: "parseSegment m [] = m"
  by (simp add: parseSegment_def)

lemma parseQuery_segment:
  "CHR ''&'' \<notin> set seg \<Longrightarrow> parseQuery m (seg @ CHR ''&'' # rest) = parseQuery (parseSegment m seg) rest"
proof (cases seg)
  case Nil
  then show ?thesis by simp
next
  case (Cons c cs)
  assume "CHR ''&'' \<notin> set seg"
  then have "strings_Cut CHR ''&'' ((c # cs) @ CHR ''&'' # rest) = (c # cs, rest)"
    using Cons Cut_append by metis
  then show ?thesis using Cons by (simp del: strings_Cut.simps)
qed

lemma parseQuery_last: "CHR ''&'' \<notin> set seg \<Longrightarrow> parseQuery m seg = parseSegment m seg"
proof (cases seg)
  case Nil
  then show ?thesis by simp
next
  case (Cons c cs)
  assume "CHR ''&'' \<notin> set seg"
  then have "strings_Cut CHR ''&'' (c # cs) = (c # cs, [])"
    using Cons Cut_notin by metis
  then show ?thesis using Cons by (simp del: strings_Cut.simps)
qed

lemma parseQuery_Join:
  "(\<And>p. p \<in> set ps \<Longrightarrow> CHR ''&'' \<notin> set p) \<Longrightarrow>
     parseQuery m (strings_Join ''&'' ps) = foldl parseSegment m ps"
proof (induction "''&''" ps arbitrary: m rule: strings_Join.induct)
  case 1
  then show ?case by simp
next
  case (2 p)
  then show ?case by (simp add: parseQuery_last)
next
  case (3 p q ps)
  have "parseQuery m (p @ CHR ''&'' # strings_Join ''&'' (q # ps))
        = parseQuery (parseSegment m p) (strings_Join ''&'' (q # ps))"
    using 3(2) by (intro parseQuery_segment) simp
  then show ?case using 3 by simp
qed

lemma values_Encode_pairs:
  "values_Encode v = strings_Join ''&'' (map encodePair (values_pairs v))"
proof -
  have "encodeKey v = (\<lambda>k. map (\<lambda>x. encodePair (k, x)) (values_lookup v k))"
    by (auto simp: fun_eq_iff encodeKey_def encodePair_def)
  then have "map encodePair (values_pairs v) = concat (map (encodeKey v) (sort (map fst v)))"
    by (simp add: values_pairs_def map_concat comp_def)
  then show ?thesis by (simp add: values_Encode_def)
qed

lemma foldl_parseSegment_pairs:
  "foldl parseSegment m (map encodePair ps) = foldl (\<lambda>m (k, x). values_Add m k x) m ps"
  by (induction ps arbitrary: m) (auto simp: parseSegment_encodePair)

lemma parseQuery_pairs:
  "parseQuery m (strings_Join ''&'' (map encodePair ps)) = foldl (\<lambda>m (k, x). values_Add m k x) m ps"
proof -
  have "parseQuery m (strings_Join ''&'' (map encodePair ps)) = foldl parseSegment m (map encodePair ps)"
    by (rule parseQuery_Join) (auto simp: encodePair_no_amp)
  then show ?thesis by (simp add: foldl_parseSegment_pairs)
qed

lemma lookup_Add:
  "values_lookup (values_Add m k x) k' = (if k' = k then values_lookup m k @ [x] else values_lookup m k')"
  by (simp add: values_lookup_def values_Add_def update_conv')

lemma lookup_Set:
  "values_lookup (values_Set m k x) k' = (if k' = k then [x] else values_lookup m k')"
  by (simp add: values_lookup_def values_Set_def update_conv')

lemma lookup_Del:
  "values_lookup (values_Del m k) k' = (if k' = k then [] else values_lookup m k')"
  by (simp add: values_lookup_def values_Del_def delete_conv')

lemma lookup_foldl_Add:
  "values_lookup (foldl (\<lambda>m (k, x). values_Add m k x) m ps) k
     = values_lookup m k @ map snd (filter (\<lambda>p. fst p = k) ps)"
  by (induction ps arbitrary: m) (auto simp: lookup_Add)

lemma filter_blocks:
  "distinct ks \<Longrightarrow>
     map snd (filter (\<lambda>p. fst p = k) (concat (map (\<lambda>k'. map (Pair k') (f k')) ks)))
       = (if k \<in> set ks then f k else [])"
proof (induction ks)
  case Nil
  then show ?case by simp
next
  case (Cons a ks)
  have other: "filter (\<lambda>p. fst p = k) (map (Pair a) (f a)) = (if a = k then map (Pair a) (f a) else [])"
    by (induction "f a") (auto simp: filter_empty_conv)
  show ?case
    using Cons other by (auto simp: comp_def)
qed

lemma lookup_absent: "k \<notin> fst ` set v \<Longrightarrow> values_lookup v k = []"
  by (simp add: values_lookup_def map_of_eq_None_iff [THEN iffD2])

lemma lookup_pairs:
  "distinct (map fst v) \<Longrightarrow> map snd (filter (\<lambda>p. fst p = k) (values_pairs v)) = values_lookup v k"
  unfolding values_pairs_def
  by (subst filter_blocks) (auto simp: lookup_absent)

lemma lookup_parseQuery_Encode:
  "distinct (map fst v) \<Longrightarrow> values_lookup (parseQuery [] (values_Encode v)) k = values_lookup v k"
  by (simp add: values_Encode_pairs parseQuery_pairs lookup_foldl_Add lookup_pairs lookup_absent)

lemma wf_Nil [simp]: "values_wf []"
  by (simp add: values_wf_def)

lemma wf_update: "values_wf m \<Longrightarrow> vs \<noteq> [] \<Longrightarrow> values_wf (AList.update k vs m)"
  by (auto simp: values_wf_def distinct_update update_conv')

lemma wf_Add: "values_wf m \<Longrightarrow> values_wf (values_Add m k x)"
  by (simp add: values_Add_def wf_update)

lemma wf_Set: "values_wf m \<Longrightarrow> values_wf (values_Set m k x)"
  by (simp add: values_Set_def wf_update)

lemma wf_Del: "values_wf m \<Longrightarrow> values_wf (values_Del m k)"
  unfolding values_wf_def values_Del_def
  by (auto simp: distinct_delete delete_conv')

lemma wf_parseSegment: "values_wf m \<Longrightarrow> values_wf (parseSegment m seg)"
  by (auto simp: parseSegment_def wf_Add split: option.splits prod.splits)

lemma wf_parseQuery: "values_wf m \<Longrightarrow> values_wf (parseQuery m q)"
  by (induction m q rule: parseQuery.induct) (auto simp: wf_parseSegment split: prod.splits simp del: strings_Cut.simps)

lemma wf_url_Query: "values_wf (url_Query u)"
  by (simp add: url_Query_def wf_parseQuery)

lemma wf_keys: "values_wf v \<Longrightarrow> set (map fst v) = {k. values_lookup v k \<noteq> []}"
proof -
  assume wf: "values_wf v"
  have "k \<in> set (map fst v) \<longleftrightarrow> values_lookup v k \<noteq> []" for k
  proof
    assume "k \<in> set (map fst v)"
    then have "map_of v k \<noteq> None" by (simp add: map_of_eq_None_iff)
    then obtain vs where "map_of v k = Some vs" by blast
    moreover from this have "vs \<noteq> []" using wf by (auto simp: values_wf_def)
    ultimately show "values_lookup v k \<noteq> []" by (simp add: values_lookup_def)
  next
    assume "values_lookup v k \<noteq> []"
    then show "k \<in> set (map fst v)"
      using lookup_absent [of k v] by auto
  qed
  then show ?thesis by blast
qed

lemma Encode_cong:
  assumes "values_wf v" "values_wf w" "\<And>k. values_lookup v k = values_lookup w k"
  shows "values_Encode v = values_Encode w"
proof -
  have keys: "set (map fst v) = set (map fst w)"
    unfolding wf_keys [OF assms(1)] wf_keys [OF assms(2)] using assms(3) by simp
  have "sort (map fst v) = sort (map fst w)"
    using assms(1,2) keys
    by (intro sorted_distinct_set_unique) (auto simp: values_wf_def)
  moreover have "encodeKey v = encodeKey w"
    using assms(3) by (auto simp: encodeKey_def fun_eq_iff)
  ultimately show ?thesis by (simp add: values_Encode_def)
qed

lemma Encode_parseQuery_Encode:
  "values_wf v \<Longrightarrow> values_Encode (parseQuery [] (values_Encode v)) = values_Encode v"
proof -
  assume wf: "values_wf v"
  then have "distinct (map fst v)" by (simp add: values_wf_def)
  then show ?thesis
    using wf wf_parseQuery [OF wf_Nil] by (intro Encode_cong) (simp_all add: lookup_parseQuery_Encode)
qed

section \<open>Properties of the base64 codec\<close>

text \<open>The 6-bit values \<open>EncodeToString\<close> looks up in the alphabet.\<close>

fun b64values :: "bytes \<Rightarrow> int list" where
  "b64values [] = []"
| "b64values [a] = (let val = of_char a * 65536 in [val div 262144, val div 4096])"
| "b64values [a, b] =
     (let val = of_char a * 65536 + of_char b * 256 in [val div 262144, val div 4096, val div 64])"
| "b64values (a # b # c # rest) =
     (let val = of_char a * 65536 + of_char b * 256 + of_char c
      in [val div 262144, val div 4096, val div 64, val] @ b64values rest)"

lemma EncodeToString_values: "EncodeToString bs = map b64char (b64values bs)"
  by (induction bs rule: b64values.induct) (simp_all add: Let_def)

lemma alphabet_table:
  "list_all (\<lambda>k. decodeMap (encodeURL ! nat k) = Some k
      \<and> (isAlnum (encodeURL ! nat k) \<or> encodeURL ! nat k = CHR ''-'' \<or> encodeURL ! nat k = CHR ''_''))
     [0..63]"
  by code_simp

lemma alphabet_entry:
  assumes "0 \<le> k" "k \<le> 63"
  shows "decodeMap (encodeURL ! nat k) = Some k"
    and "isAlnum (encodeURL ! nat k) \<or> encodeURL ! nat k = CHR ''-'' \<or> encodeURL ! nat k = CHR ''_''"
proof -
  have "k \<in> set [0..63]" using assms by simp
  then show "decodeMap (encodeURL ! nat k) = Some k"
    and "isAlnum (encodeURL ! nat k) \<or> encodeURL ! nat k = CHR ''-'' \<or> encodeURL ! nat k = CHR ''_''"
    using alphabet_table unfolding list_all_iff by blast+
qed

lemma decodeMap_b64char: "decodeMap (b64char n) = Some (n mod 64)"
  unfolding b64char_def by (rule alphabet_entry) simp_all

lemma b64char_unreserved:
  "isAlnum (b64char n) \<or> b64char n = CHR ''-'' \<or> b64char n = CHR ''_''"
  unfolding b64char_def by (rule alphabet_entry) simp_all

lemma those_decodeMap: "those (map decodeMap (map b64char ns)) = Some (map (\<lambda>n. n mod 64) ns)"
  by (induction ns) (simp_all add: decodeMap_b64char)

lemma char_of_shift: "char_of (k * 256 + of_char c :: int) = c"
proof -
  have "char_of (k * 256 + of_char c :: int) = char_of ((k * 256 + of_char c) mod 256 :: int)"
    by (simp only: char_of_mod_256)
  also have "(k * 256 + of_char c) mod 256 = (of_char c :: int) mod 256"
    by simp
  finally show ?thesis by simp
qed

lemma sixbit_digits:
  "(v::int) = v div 262144 * 262144 + v div 4096 mod 64 * 4096 + v div 64 mod 64 * 64 + v mod 64"
proof -
  have a: "v = v div 64 * 64 + v mod 64" by simp
  have b: "v div 64 = v div 4096 * 64 + v div 64 mod 64"
    using div_mult_mod_eq [of "v div 64" 64] by (simp add: zdiv_zmult2_eq [symmetric])
  have c: "v div 4096 = v div 262144 * 64 + v div 4096 mod 64"
    using div_mult_mod_eq [of "v div 4096" 64] by (simp add: zdiv_zmult2_eq [symmetric])
  show ?thesis using a b c by linarith
qed

lemma decode_val:
  assumes "0 \<le> val" "val < (16777216::int)"
  shows "val div 262144 mod 64 * 262144 + val div 4096 mod 64 * 4096 + val div 64 mod 64 * 64
           + val mod 64 = val"
proof -
  have "0 \<le> val div 262144" using assms(1) by (simp add: pos_imp_zdiv_nonneg_iff)
  moreover have "val div 262144 < 64" using assms(2) by linarith
  ultimately have "val div 262144 mod 64 = val div 262144" by (rule mod_pos_pos_trivial)
  then show ?thesis using sixbit_digits [of val] by (simp only:)
qed

lemma decode_three:
  fixes a b c :: char
  defines "val \<equiv> of_char a * 65536 + of_char b * 256 + (of_char c :: int)"
  defines "val' \<equiv> val div 262144 mod 64 * 262144 + val div 4096 mod 64 * 4096
                    + val div 64 mod 64 * 64 + val mod 64"
  shows "char_of (val' div 65536) = a" "char_of (val' div 256) = b" "char_of val' = c"
proof -
  have bd: "0 \<le> val" "val < 16777216"
    using of_char_int_bounds [of a] of_char_int_bounds [of b] of_char_int_bounds [of c]
    by (auto simp: val_def)
  have eq: "val' = val" unfolding val'_def using decode_val [OF bd] .
  have "val div 65536 = of_char a"
    using of_char_int_bounds [of b] of_char_int_bounds [of c] by (simp add: val_def)
  then show "char_of (val' div 65536) = a" by (simp add: eq)
  have "val div 256 = of_char a * 256 + of_char b"
    using of_char_int_bounds [of c] by (simp add: val_def)
  then show "char_of (val' div 256) = b" by (simp add: eq char_of_shift)
  have "val = (of_char a * 256 + of_char b) * 256 + of_char c" by (simp add: val_def)
  then show "char_of val' = c" by (simp only: eq char_of_shift)
qed

lemma decode_two:
  fixes a b :: char
  defines "val \<equiv> of_char a * 65536 + (of_char b :: int) * 256"
  defines "val' \<equiv> val div 262144 mod 64 * 262144 + val div 4096 mod 64 * 4096
                    + val div 64 mod 64 * 64"
  shows "char_of (val' div 65536) = a" "char_of (val' div 256) = b"
proof -
  have bd: "0 \<le> val" "val < 16777216"
    using of_char_int_bounds [of a] of_char_int_bounds [of b] by (auto simp: val_def)
  have "val mod 64 = 0" unfolding val_def by simp
  with decode_val [OF bd] have eq: "val' = val" unfolding val'_def by linarith
  have "val div 65536 = of_char a"
    using of_char_int_bounds [of b] by (simp add: val_def)
  then show "char_of (val' div 65536) = a" by (simp add: eq)
  have "val div 256 = of_char a * 256 + of_char b" by (simp add: val_def)
  then show "char_of (val' div 256) = b" by (simp add: eq char_of_shift)
qed

lemma decode_one:
  fixes a :: char
  defines "val \<equiv> (of_char a :: int) * 65536"
  defines "val' \<equiv> val div 262144 mod 64 * 262144 + val div 4096 mod 64 * 4096"
  shows "char_of (val' div 65536) = a"
proof -
  have bd: "0 \<le> val" "val < 16777216"
    using of_char_int_bounds [of a] by (auto simp: val_def)
  have "val mod 64 = 0" unfolding val_def by simp
  moreover have "val div 64 = of_char a * 16 * 64" unfolding val_def by simp
  then have "val div 64 mod 64 = 0" by (simp only: mod_mult_self2_is_0)
  ultimately have eq: "val' = val" unfolding val'_def using decode_val [OF bd] by linarith
  have "val div 65536 = of_char a" by (simp add: val_def)
  then show ?thesis by (simp add: eq)
qed

lemma decodeQuanta_b64values: "decodeQuanta (map (\<lambda>n. n mod 64) (b64values bs)) = Some bs"
proof (induction bs rule: b64values.induct)
  case 1
  then show ?case by simp
next
  case (2 a)
  show ?case
    by (simp only: b64values.simps Let_def list.map decodeQuanta.simps decode_one)
next
  case (3 a b)
  show ?case
    by (simp only: b64values.simps Let_def list.map decodeQuanta.simps decode_two)
next
  case (4 a b c rest)
  show ?case
    by (simp only: b64values.simps Let_def list.map map_append append.simps decodeQuanta.simps
          decode_three 4 option.case)
qed

lemma EncodeToString_plain:
  "x \<in> set (EncodeToString bs) \<Longrightarrow> isAlnum x \<or> x = CHR ''-'' \<or> x = CHR ''_''"
  using b64char_unreserved by (auto simp: EncodeToString_values)

lemma DecodeString_EncodeToString: "DecodeString (EncodeToString bs) = Some bs"
proof -
  have "x \<in> set (EncodeToString bs) \<Longrightarrow> x \<noteq> CHR 0x0A \<and> x \<noteq> CHR 0x0D" for x
    using EncodeToString_plain [of x bs] by (auto simp: isAlnum_def less_eq_char_def)
  then have flt: "filter (\<lambda>c. c \<noteq> CHR 0x0A \<and> c \<noteq> CHR 0x0D) (EncodeToString bs) = EncodeToString bs"
    by (simp add: filter_id_conv)
  have "those (map decodeMap (EncodeToString bs)) = Some (map (\<lambda>n. n mod 64) (b64values bs))"
    unfolding EncodeToString_values by (rule those_decodeMap)
  then show ?thesis
    unfolding DecodeString_def flt by (simp only: option.case decodeQuanta_b64values)
qed

lemma QueryEscape_plain:
  "(\<And>x. x \<in> set s \<Longrightarrow> isAlnum x \<or> x = CHR ''-'' \<or> x = CHR ''_'') \<Longrightarrow> QueryEscape s = s"
proof (induction s)
  case Nil
  then show ?case by (simp add: QueryEscape_def)
next
  case (Cons c s)
  have "isAlnum c \<or> c = CHR ''-'' \<or> c = CHR ''_''" using Cons.prems by simp
  then have "escapeByte c = [c]"
    by (auto simp: escapeByte_def shouldEscape_def isAlnum_def less_eq_char_def)
  moreover have "QueryEscape s = s" using Cons by simp
  ultimately show ?case by (simp add: QueryEscape_def)
qed

lemma QueryEscape_EncodeToString: "QueryEscape (EncodeToString bs) = EncodeToString bs"
  by (rule QueryEscape_plain) (rule EncodeToString_plain)

lemma QueryEscape_Signature: "QueryEscape Signature = Signature"
  by code_simp

lemma EncodeToString_nonempty: "bs \<noteq> [] \<Longrightarrow> EncodeToString bs \<noteq> []"
  by (induction bs rule: EncodeToString.induct) (simp_all add: Let_def)

section \<open>Construction\<close>

text \<open>The signer of the examples is the one \<open>New\<close> returns.\<close>

lemma New_test_signer: "New test_lib ''sha256'' test_key [test_clock] = Inr test_signer"
  by (simp add: New_def test_key_def test_signer_def ParseHasher_def test_lib_def)

text \<open>
  C2. For every key of length \<open>L\<close>, \<open>New\<close> returns a signer when \<open>32 \<le> L \<le> 64\<close> and
  panics when \<open>L < 32\<close> or \<open>L > 64\<close>, whatever the algorithm name and the clock.
\<close>

theorem New_key_length:
  "(32 \<le> length keyBytes \<and> length keyBytes \<le> 64 \<longrightarrow>
      (\<exists>s. New L algo keyBytes nowArgs = Inr s))
   \<and> (length keyBytes < 32 \<or> length keyBytes > 64 \<longrightarrow>
      New L algo keyBytes nowArgs = Inl KeyLengthPanic)"
  by (auto simp: New_def)

theorem New_key_length_witness:
  "(\<exists>s. New test_lib ''sha256'' (replicate 32 (CHR 0x00)) [test_clock] = Inr s)
   \<and> (\<exists>s. New test_lib ''sha256'' (replicate 64 (CHR 0x00)) [test_clock] = Inr s)
   \<and> New test_lib ''sha256'' (replicate 31 (CHR 0x00)) [test_clock] = Inl KeyLengthPanic
   \<and> New test_lib ''sha256'' (replicate 65 (CHR 0x00)) [test_clock] = Inl KeyLengthPanic"
  using New_key_length [of "replicate 32 (CHR 0x00)" test_lib "''sha256''" "[test_clock]"]
        New_key_length [of "replicate 64 (CHR 0x00)" test_lib "''sha256''" "[test_clock]"]
        New_key_length [of "replicate 31 (CHR 0x00)" test_lib "''sha256''" "[test_clock]"]
        New_key_length [of "replicate 65 (CHR 0x00)" test_lib "''sha256''" "[test_clock]"]
  by simp

section \<open>Verification\<close>

lemma Get_absent: "k \<notin> fst ` set v \<Longrightarrow> values_Get v k = []"
  by (simp add: values_Get_def lookup_absent)

lemma Get_Del_other: "k' \<noteq> k \<Longrightarrow> values_Get (values_Del v k) k' = values_Get v k'"
  by (simp add: values_Get_def lookup_Del)

lemma Get_Del_same: "values_Get (values_Del v k) k = []"
  by (simp add: values_Get_def lookup_Del)

lemma extract_missing:
  "values_Get query Signature = [] \<Longrightarrow>
     extractAndDecodeSignature query = ([], query, Some ErrMissingSignature)"
  by (simp add: extractAndDecodeSignature_def)

lemma extract_undecodable:
  "values_Get query Signature \<noteq> [] \<Longrightarrow> DecodeString (values_Get query Signature) = None \<Longrightarrow>
     extractAndDecodeSignature query = ([], query, Some ErrInvalidSignature)"
  by (simp add: extractAndDecodeSignature_def)

lemma extract_decoded:
  "values_Get query Signature \<noteq> [] \<Longrightarrow> DecodeString (values_Get query Signature) = Some sigBytes \<Longrightarrow>
     extractAndDecodeSignature query = (sigBytes, values_Del query Signature, None)"
  by (simp add: extractAndDecodeSignature_def)

text \<open>What \<open>Verify\<close> does once the signature is extracted and decoded.\<close>

lemma Verify_decoded:
  assumes "values_Get (url_Query u) Signature \<noteq> []"
    and "DecodeString (values_Get (url_Query u) Signature) = Some sigBytes"
  shows "Verify L s u =
     (let query = values_Del (url_Query u) Signature;
          u' = u\<lparr>RawQuery := values_Encode query\<rparr>
      in (u', case hasher s () of
                Inl p \<Rightarrow> Panic p
              | Inr h \<Rightarrow>
                  (if sigBytes = h (url_String u') then verifyExpiration L s query
                   else Failed ErrInvalidSignature)))"
  using extract_decoded [OF assms]
  by (auto simp: Verify_def verifyMAC_def sumURLString_def UnsafeBytes_def Let_def
           split: sum.splits)

lemma those_None_iff: "those xs = None \<longleftrightarrow> None \<in> set xs"
  by (induction xs) (auto split: option.splits)

lemma those_length: "those xs = Some ys \<Longrightarrow> length ys = length xs"
  by (induction xs arbitrary: ys) (auto split: option.splits)

lemma decodeQuanta_None_iff: "decodeQuanta vals = None \<longleftrightarrow> length vals mod 4 = 1"
  by (induction vals rule: decodeQuanta.induct) (auto simp: Let_def split: option.splits)

lemma those_filter_None_iff:
  "those (map f (filter P xs)) = None \<longleftrightarrow> (\<exists>c \<in> set xs. P c \<and> f c = None)"
proof -
  have "None \<in> set (map f (filter P xs)) \<longleftrightarrow> (\<exists>c \<in> set xs. P c \<and> f c = None)"
    by (induction xs) auto
  then show ?thesis by (simp only: those_None_iff)
qed

lemma decode_filtered_None_iff:
  "(case those (map f (filter P xs)) of None \<Rightarrow> None | Some vals \<Rightarrow> decodeQuanta vals) = None
     \<longleftrightarrow> (\<exists>c \<in> set xs. P c \<and> f c = None) \<or> length (filter P xs) mod 4 = 1"
proof (cases "those (map f (filter P xs))")
  case None
  then show ?thesis using those_filter_None_iff [of f P xs] by simp
next
  case (Some vals)
  then have no: "\<not> (\<exists>c \<in> set xs. P c \<and> f c = None)"
    using those_filter_None_iff [of f P xs] by simp
  have "length vals = length (filter P xs)"
    using those_length [OF Some] by simp
  then have "decodeQuanta vals = None \<longleftrightarrow> length (filter P xs) mod 4 = 1"
    by (simp add: decodeQuanta_None_iff)
  then show ?thesis using Some no by auto
qed

text \<open>What the decoder rejects: a byte outside the alphabet that is neither a carriage
  return nor a line feed, or a single character left over after the groups of four.\<close>

lemma DecodeString_None_iff:
  "DecodeString sig = None \<longleftrightarrow>
     (\<exists>c \<in> set sig. (c \<noteq> CHR 0x0A \<and> c \<noteq> CHR 0x0D) \<and> decodeMap c = None)
     \<or> length (filter (\<lambda>c. c \<noteq> CHR 0x0A \<and> c \<noteq> CHR 0x0D) sig) mod 4 = 1"
  unfolding DecodeString_def by (rule decode_filtered_None_iff)

text \<open>
  C6, as the code has it. If the \<open>signature\<close> parameter is absent or its (first) value is
  empty, \<open>Verify\<close> returns the missing-signature error. If the value is there and the
  decoder of \<open>base64.RawURLEncoding\<close> rejects it, \<open>Verify\<close> returns the invalid-signature
  error, the error of a forged signature; the decoder rejects a value with a byte that is
  neither in the URL-safe alphabet nor a carriage return or line feed, and a value that
  leaves a single character after its groups of four. In these cases the URL is left as
  it was. (A value with line breaks in it, which is not unpadded URL-safe base64, is
  decoded all the same: see the counterexample.)
\<close>

theorem Verify_missing_or_rejected_signature:
  "(Signature \<notin> fst ` set (url_Query u) \<longrightarrow> Verify L s u = (u, Failed ErrMissingSignature))
   \<and> (values_Get (url_Query u) Signature = [] \<longrightarrow> Verify L s u = (u, Failed ErrMissingSignature))
   \<and> (values_Get (url_Query u) Signature \<noteq> []
        \<and> DecodeString (values_Get (url_Query u) Signature) = None \<longrightarrow>
          Verify L s u = (u, Failed ErrInvalidSignature))
   \<and> (values_Get (url_Query u) Signature \<noteq> []
        \<and> ((\<exists>c \<in> set (values_Get (url_Query u) Signature).
                (c \<noteq> CHR 0x0A \<and> c \<noteq> CHR 0x0D) \<and> decodeMap c = None)
             \<or> length (filter (\<lambda>c. c \<noteq> CHR 0x0A \<and> c \<noteq> CHR 0x0D)
                   (values_Get (url_Query u) Signature)) mod 4 = 1) \<longrightarrow>
          Verify L s u = (u, Failed ErrInvalidSignature))"
proof -
  have "Verify L s u = (u, Failed ErrInvalidSignature)"
    if "values_Get (url_Query u) Signature \<noteq> []"
      and "DecodeString (values_Get (url_Query u) Signature) = None"
    using that by (simp add: Verify_def extract_undecodable)
  then have inv: "values_Get (url_Query u) Signature \<noteq> []
        \<and> DecodeString (values_Get (url_Query u) Signature) = None \<longrightarrow>
          Verify L s u = (u, Failed ErrInvalidSignature)"
    by blast
  have mis: "values_Get (url_Query u) Signature = [] \<longrightarrow>
      Verify L s u = (u, Failed ErrMissingSignature)"
    by (simp add: Verify_def extract_missing)
  have abs: "Signature \<notin> fst ` set (url_Query u) \<longrightarrow>
      Verify L s u = (u, Failed ErrMissingSignature)"
    using mis Get_absent by blast
  show ?thesis
    unfolding DecodeString_None_iff [symmetric] using abs mis inv by blast
qed

theorem Verify_missing_or_rejected_signature_witness:
  "Verify test_lib test_signer
     \<lparr>Hier = ''https://example.com/x'', ForceQuery = False, RawQuery = ''y=z'', EscFragment = []\<rparr>
     = (\<lparr>Hier = ''https://example.com/x'', ForceQuery = False, RawQuery = ''y=z'', EscFragment = []\<rparr>,
        Failed ErrMissingSignature)
   \<and> Verify test_lib test_signer
     \<lparr>Hier = ''https://example.com/x'', ForceQuery = False, RawQuery = ''signature='',
      EscFragment = []\<rparr>
     = (\<lparr>Hier = ''https://example.com/x'', ForceQuery = False, RawQuery = ''signature='',
         EscFragment = []\<rparr>,
        Failed ErrMissingSignature)
   \<and> Verify test_lib test_signer
     \<lparr>Hier = ''https://example.com/x'', ForceQuery = False,
      RawQuery = ''signature=***not_base64***'', EscFragment = []\<rparr>
     = (\<lparr>Hier = ''https://example.com/x'', ForceQuery = False,
         RawQuery = ''signature=***not_base64***'', EscFragment = []\<rparr>,
        Failed ErrInvalidSignature)
   \<and> Verify test_lib test_signer
     \<lparr>Hier = ''https://example.com/x'', ForceQuery = False,
      RawQuery = ''signature=QUJDR'', EscFragment = []\<rparr>
     = (\<lparr>Hier = ''https://example.com/x'', ForceQuery = False,
         RawQuery = ''signature=QUJDR'', EscFragment = []\<rparr>,
        Failed ErrInvalidSignature)"
proof -
  let ?u1 = "\<lparr>Hier = ''https://example.com/x'', ForceQuery = False, RawQuery = ''y=z'',
              EscFragment = []\<rparr>"
  let ?u2 = "\<lparr>Hier = ''https://example.com/x'', ForceQuery = False, RawQuery = ''signature='',
              EscFragment = []\<rparr>"
  let ?u3 = "\<lparr>Hier = ''https://example.com/x'', ForceQuery = False,
              RawQuery = ''signature=***not_base64***'', EscFragment = []\<rparr>"
  let ?u4 = "\<lparr>Hier = ''https://example.com/x'', ForceQuery = False,
              RawQuery = ''signature=QUJDR'', EscFragment = []\<rparr>"
  have a: "Signature \<notin> fst ` set (url_Query ?u1)" by code_simp
  have b: "values_Get (url_Query ?u2) Signature = []" by code_simp
  have c: "values_Get (url_Query ?u3) Signature \<noteq> []
           \<and> DecodeString (values_Get (url_Query ?u3) Signature) = None" by code_simp
  have d1: "values_Get (url_Query ?u4) Signature \<noteq> []" by code_simp
  have d2: "length (filter (\<lambda>c. c \<noteq> CHR 0x0A \<and> c \<noteq> CHR 0x0D)
                 (values_Get (url_Query ?u4) Signature)) mod 4 = 1" by code_simp
  have d: "values_Get (url_Query ?u4) Signature \<noteq> []
        \<and> ((\<exists>c \<in> set (values_Get (url_Query ?u4) Signature).
                (c \<noteq> CHR 0x0A \<and> c \<noteq> CHR 0x0D) \<and> decodeMap c = None)
             \<or> length (filter (\<lambda>c. c \<noteq> CHR 0x0A \<and> c \<noteq> CHR 0x0D)
                   (values_Get (url_Query ?u4) Signature)) mod 4 = 1)"
    using d1 d2 by (intro conjI disjI2)
  have t1: "Verify test_lib test_signer ?u1 = (?u1, Failed ErrMissingSignature)"
    by (rule Verify_missing_or_rejected_signature [THEN conjunct1, THEN mp, OF a])
  have t2: "Verify test_lib test_signer ?u2 = (?u2, Failed ErrMissingSignature)"
    by (rule Verify_missing_or_rejected_signature [THEN conjunct2, THEN conjunct1, THEN mp, OF b])
  have t3: "Verify test_lib test_signer ?u3 = (?u3, Failed ErrInvalidSignature)"
    by (rule Verify_missing_or_rejected_signature
          [THEN conjunct2, THEN conjunct2, THEN conjunct1, THEN mp, OF c])
  have t4: "Verify test_lib test_signer ?u4 = (?u4, Failed ErrInvalidSignature)"
    by (rule Verify_missing_or_rejected_signature
          [THEN conjunct2, THEN conjunct2, THEN conjunct2, THEN mp, OF d])
  show ?thesis
    using t1 t2 t3 t4 by (intro conjI)
qed

theorem Verify_line_break_signature_counterexample:
  "values_Get (url_Query
      \<lparr>Hier = ''https://example.com/path'', ForceQuery = False,
       RawQuery = ''hello=world&signature=-mE%0D%0ANuQ'', EscFragment = []\<rparr>) Signature
     = [CHR ''-'', CHR ''m'', CHR ''E'', CHR 0x0D, CHR 0x0A, CHR ''N'', CHR ''u'', CHR ''Q'']
   \<and> decodeMap (CHR 0x0D) = None \<and> decodeMap (CHR 0x0A) = None
   \<and> snd (Verify test_lib test_signer
          \<lparr>Hier = ''https://example.com/path'', ForceQuery = False,
           RawQuery = ''hello=world&signature=-mE%0D%0ANuQ'', EscFragment = []\<rparr>) = Done ()"
  by code_simp

text \<open>
  C8. When the signature of a URL validates and its \<open>expires\<close> parameter is not empty and
  does not parse as an RFC 3339 time, \<open>Verify\<close> panics; it returns no error value.
\<close>

theorem Verify_unparsable_expiry_panics:
  assumes "hasher s () = Inr h"
    and "values_Get (url_Query u) Signature \<noteq> []"
    and "DecodeString (values_Get (url_Query u) Signature) = Some sigBytes"
    and "h (url_String (u\<lparr>RawQuery := values_Encode (values_Del (url_Query u) Signature)\<rparr>))
           = sigBytes"
    and "values_Get (url_Query u) Expiration \<noteq> []"
    and "time_Parse L (values_Get (url_Query u) Expiration) = None"
  shows "snd (Verify L s u) = Panic ExpirationFormatPanic"
proof -
  have "Expiration \<noteq> Signature" by (simp add: Expiration_def Signature_def)
  then have "values_Get (values_Del (url_Query u) Signature) Expiration
               = values_Get (url_Query u) Expiration"
    by (rule Get_Del_other)
  then have "verifyExpiration L s (values_Del (url_Query u) Signature) = Panic ExpirationFormatPanic"
    using assms(5,6) by (simp add: verifyExpiration_def)
  then show ?thesis
    using assms(1,4) by (simp add: Verify_decoded [OF assms(2,3)] Let_def)
qed

theorem Verify_unparsable_expiry_panics_witness:
  "snd (Verify test_lib test_signer
          \<lparr>Hier = ''https://example.com/path'', ForceQuery = False,
           RawQuery = ''expires=not-a-time&hello=world&signature=Q78U1w'', EscFragment = []\<rparr>)
     = Panic ExpirationFormatPanic"
proof -
  let ?u = "\<lparr>Hier = ''https://example.com/path'', ForceQuery = False,
             RawQuery = ''expires=not-a-time&hello=world&signature=Q78U1w'', EscFragment = []\<rparr>"
  let ?h = "test_hmac_Sum SHA256 test_key"
  let ?sig = "?h ''https://example.com/path?expires=not-a-time&hello=world''"
  have 1: "hasher test_signer () = Inr ?h" by (simp add: test_signer_def)
  have 2: "values_Get (url_Query ?u) Signature \<noteq> []" by code_simp
  have 3: "DecodeString (values_Get (url_Query ?u) Signature) = Some ?sig" by code_simp
  have 4: "?h (url_String (?u\<lparr>RawQuery := values_Encode (values_Del (url_Query ?u) Signature)\<rparr>))
             = ?sig" by code_simp
  have 5: "values_Get (url_Query ?u) Expiration \<noteq> []" by code_simp
  have 6: "time_Parse test_lib (values_Get (url_Query ?u) Expiration) = None" by code_simp
  show ?thesis
    by (rule Verify_unparsable_expiry_panics [OF 1 2 3 4 5 6])
qed

text \<open>
  C10. \<open>Verify\<close> changes the URL it is given. When the \<open>signature\<close> parameter is there and
  decodes, the call leaves \<open>RawQuery\<close> as the canonical encoding of the other parameters,
  whatever it returns: the \<open>signature\<close> parameter is gone from the caller's URL and every
  other key keeps its values.
\<close>

theorem Verify_rewrites_RawQuery:
  assumes "values_Get (url_Query u) Signature \<noteq> []"
    and "DecodeString (values_Get (url_Query u) Signature) = Some sigBytes"
  shows "fst (Verify L s u) = u\<lparr>RawQuery := values_Encode (values_Del (url_Query u) Signature)\<rparr>
     \<and> Signature \<notin> fst ` set (url_Query (fst (Verify L s u)))
     \<and> (\<forall>k. values_lookup (url_Query (fst (Verify L s u))) k
             = (if k = Signature then [] else values_lookup (url_Query u) k))"
proof -
  let ?q = "values_Del (url_Query u) Signature"
  let ?u' = "u\<lparr>RawQuery := values_Encode ?q\<rparr>"
  have u': "fst (Verify L s u) = ?u'"
    by (simp add: Verify_decoded [OF assms] Let_def)
  have wf: "values_wf ?q" by (simp add: wf_Del wf_url_Query)
  then have "distinct (map fst ?q)" by (simp add: values_wf_def)
  then have look: "values_lookup (url_Query ?u') k = values_lookup ?q k" for k
    by (simp add: url_Query_def lookup_parseQuery_Encode)
  have "values_lookup (url_Query ?u') Signature = []"
    by (simp add: look lookup_Del)
  moreover have "set (map fst (url_Query ?u')) = {k. values_lookup (url_Query ?u') k \<noteq> []}"
    by (rule wf_keys) (rule wf_url_Query)
  ultimately have "Signature \<notin> fst ` set (url_Query ?u')" by auto
  then show ?thesis
    unfolding u' using look by (simp add: lookup_Del)
qed

theorem Verify_rewrites_RawQuery_witness:
  "fst (Verify test_lib test_signer
          \<lparr>Hier = ''https://example.com/path'', ForceQuery = False,
           RawQuery = ''z=1&signature=AAAA&a=2'', EscFragment = ''top''\<rparr>)
     = \<lparr>Hier = ''https://example.com/path'', ForceQuery = False, RawQuery = ''a=2&z=1'',
        EscFragment = ''top''\<rparr>"
proof -
  let ?u = "\<lparr>Hier = ''https://example.com/path'', ForceQuery = False,
             RawQuery = ''z=1&signature=AAAA&a=2'', EscFragment = ''top''\<rparr>"
  have 1: "values_Get (url_Query ?u) Signature \<noteq> []" by code_simp
  have 2: "DecodeString (values_Get (url_Query ?u) Signature) = Some [CHR 0x00, CHR 0x00, CHR 0x00]"
    by code_simp
  have 3: "values_Encode (values_Del (url_Query ?u) Signature) = ''a=2&z=1''" by code_simp
  show ?thesis
    using Verify_rewrites_RawQuery [OF 1 2, of test_lib test_signer] by (simp add: 3)
qed

text \<open>
  C7, as the code has it. With an algorithm name that \<open>ParseHasher\<close> does not know and a
  key of valid length, \<open>New\<close> returns a signer. The panic comes when the factory of keyed
  hashes is called, which is not in every first call: \<open>Sign\<close> calls it once the URL has
  parsed, and \<open>Verify\<close> once the signature has been extracted and decoded. A call that
  returns before that returns its error and does not panic.
\<close>

theorem unsupported_algorithm_panics_at_first_use:
  assumes "algo \<notin> {''sha256'', ''sha512/256'', ''sha3-256'', ''sha3-512'', ''blake2b''}"
    and "32 \<le> length keyBytes" and "length keyBytes \<le> 64"
  shows "\<exists>s. New L algo keyBytes nowArgs = Inr s
     \<and> hasher s () = Inl InvalidHasherPanic
     \<and> (\<forall>U D. Sign L s U D
            = (if url_Parse L U = None then Failed ErrURLParse else Panic InvalidHasherPanic))
     \<and> (\<forall>u. snd (Verify L s u)
            = (case extractAndDecodeSignature (url_Query u) of
                 (sigBytes, query, Some err) \<Rightarrow> Failed err
               | (sigBytes, query, None) \<Rightarrow> Panic InvalidHasherPanic))"
proof -
  have ph: "ParseHasher algo = Inl InvalidHasherPanic"
    using assms(1) by (simp add: ParseHasher_def)
  define s where "s = \<lparr>now = (case nowArgs of [] \<Rightarrow> time_Now L | n # _ \<Rightarrow> n),
                       hasher = (\<lambda>_::unit. (Inl InvalidHasherPanic :: panic + (bytes \<Rightarrow> bytes)))\<rparr>"
  have new: "New L algo keyBytes nowArgs = Inr s"
    using assms(2,3) by (simp add: New_def ph s_def)
  have h: "hasher s () = Inl InvalidHasherPanic" by (simp add: s_def)
  have sign: "Sign L s U D
      = (if url_Parse L U = None then Failed ErrURLParse else Panic InvalidHasherPanic)" for U D
    by (auto simp: Sign_def sumURLString_def h Let_def split: option.splits)
  have verify: "snd (Verify L s u)
      = (case extractAndDecodeSignature (url_Query u) of
           (sigBytes, query, Some err) \<Rightarrow> Failed err
         | (sigBytes, query, None) \<Rightarrow> Panic InvalidHasherPanic)" for u
    by (auto simp: Verify_def verifyMAC_def sumURLString_def h Let_def split: prod.splits option.splits)
  show ?thesis using new h sign verify by blast
qed

theorem unsupported_algorithm_panics_at_first_use_witness:
  "\<exists>s. New test_lib ''blake2b-256'' test_key [test_clock] = Inr s
     \<and> hasher s () = Inl InvalidHasherPanic
     \<and> Sign test_lib s ''https://example.com/path?hello=world'' 0 = Panic InvalidHasherPanic
     \<and> Sign test_lib s [CHR 0x01] 0 = Failed ErrURLParse
     \<and> snd (Verify test_lib s
          \<lparr>Hier = ''https://example.com/x'', ForceQuery = False, RawQuery = ''signature=AAAA'',
           EscFragment = []\<rparr>) = Panic InvalidHasherPanic
     \<and> snd (Verify test_lib s
          \<lparr>Hier = ''https://example.com/x'', ForceQuery = False, RawQuery = ''y=z'',
           EscFragment = []\<rparr>) = Failed ErrMissingSignature"
proof -
  have a: "''blake2b-256'' \<notin> {''sha256'', ''sha512/256'', ''sha3-256'', ''sha3-512'', ''blake2b''}"
    by simp
  have k: "32 \<le> length test_key" "length test_key \<le> 64" by (simp_all add: test_key_def)
  have p1: "url_Parse test_lib ''https://example.com/path?hello=world'' \<noteq> None" by code_simp
  have p2: "url_Parse test_lib [CHR 0x01] = None" by code_simp
  have e1: "extractAndDecodeSignature (url_Query
              \<lparr>Hier = ''https://example.com/x'', ForceQuery = False, RawQuery = ''signature=AAAA'',
               EscFragment = []\<rparr>) = ([CHR 0x00, CHR 0x00, CHR 0x00], [], None)" by code_simp
  have e2: "extractAndDecodeSignature (url_Query
              \<lparr>Hier = ''https://example.com/x'', ForceQuery = False, RawQuery = ''y=z'',
               EscFragment = []\<rparr>) = ([], [(''y'', [''z''])], Some ErrMissingSignature)" by code_simp
  from unsupported_algorithm_panics_at_first_use [OF a k, of test_lib "[test_clock]"]
  obtain s where s: "New test_lib ''blake2b-256'' test_key [test_clock] = Inr s"
      "hasher s () = Inl InvalidHasherPanic"
      "\<And>U D. Sign test_lib s U D
         = (if url_Parse test_lib U = None then Failed ErrURLParse else Panic InvalidHasherPanic)"
      "\<And>u. snd (Verify test_lib s u)
         = (case extractAndDecodeSignature (url_Query u) of
              (sigBytes, query, Some err) \<Rightarrow> Failed err
            | (sigBytes, query, None) \<Rightarrow> Panic InvalidHasherPanic)"
    by blast
  show ?thesis
    using s(1,2) p1 p2 by (intro exI [of _ s]) (simp add: s(3) s(4) e1 e2)
qed

text \<open>The signer \<open>New\<close> returns for the algorithm name \<open>blake2b-256\<close>, which the README
  lists and \<open>ParseHasher\<close> does not know.\<close>

definition unknown_algo_signer :: HMACSigner where
  "unknown_algo_signer = \<lparr>now = test_clock, hasher = (\<lambda>_. Inl InvalidHasherPanic)\<rparr>"

theorem unsupported_algorithm_counterexample:
  "New test_lib ''blake2b-256'' test_key [test_clock] = Inr unknown_algo_signer
   \<and> Verify test_lib unknown_algo_signer
       \<lparr>Hier = ''https://example.com/x'', ForceQuery = False, RawQuery = ''y=z'', EscFragment = []\<rparr>
     = (\<lparr>Hier = ''https://example.com/x'', ForceQuery = False, RawQuery = ''y=z'',
         EscFragment = []\<rparr>, Failed ErrMissingSignature)
   \<and> Sign test_lib unknown_algo_signer [CHR 0x7F] 0 = Failed ErrURLParse"
proof -
  have "New test_lib ''blake2b-256'' test_key [test_clock] = Inr unknown_algo_signer"
    by (simp add: New_def test_key_def unknown_algo_signer_def ParseHasher_def)
  moreover have "Verify test_lib unknown_algo_signer
       \<lparr>Hier = ''https://example.com/x'', ForceQuery = False, RawQuery = ''y=z'', EscFragment = []\<rparr>
     = (\<lparr>Hier = ''https://example.com/x'', ForceQuery = False, RawQuery = ''y=z'',
         EscFragment = []\<rparr>, Failed ErrMissingSignature)"
    by code_simp
  moreover have "Sign test_lib unknown_algo_signer [CHR 0x7F] 0 = Failed ErrURLParse"
    by code_simp
  ultimately show ?thesis by blast
qed

section \<open>Signing, then verifying\<close>

text \<open>
  What \<open>url.Parse\<close> made of a URL is printed by \<open>String\<close> in a form that \<open>url.Parse\<close>
  reads back as the same: the text of scheme, authority and path parses to itself and has
  no \<open>?\<close>, no \<open>#\<close> and no control byte, and the escaped fragment parses to itself.
\<close>

definition url_reparses :: "golib \<Rightarrow> URL \<Rightarrow> bool" where
  "url_reparses L u \<longleftrightarrow>
     url_parseHier L (Hier u) = Some (Hier u)
     \<and> CHR ''?'' \<notin> set (Hier u) \<and> CHR ''#'' \<notin> set (Hier u)
     \<and> \<not> stringContainsCTLByte (Hier u)
     \<and> (EscFragment u = [] \<or> url_parseFragment L (EscFragment u) = Some (EscFragment u))"

text \<open>The bytes of an encoded query.\<close>

definition queryText :: "string \<Rightarrow> bool" where
  "queryText s \<longleftrightarrow> (\<forall>c \<in> set s. queryByte c \<or> c = CHR ''='' \<or> c = CHR ''&'')"

lemma queryText_append [simp]: "queryText (a @ b) \<longleftrightarrow> queryText a \<and> queryText b"
  by (auto simp: queryText_def)

lemma queryText_encodePair: "queryText (encodePair p)"
  unfolding queryText_def using encodePair_set [of _ p] by blast

lemma queryText_Join: "(\<And>p. p \<in> set ps \<Longrightarrow> queryText p) \<Longrightarrow> queryText (strings_Join ''&'' ps)"
  by (induction "''&''" ps rule: strings_Join.induct) (auto simp: queryText_def)

lemma queryText_pairs: "queryText (strings_Join ''&'' (map encodePair ps))"
  by (rule queryText_Join) (auto simp: queryText_encodePair)

lemma queryText_plain:
  assumes "queryText s" "c \<in> set s"
  shows "c \<noteq> CHR ''#''" "c \<noteq> CHR ''?''" "\<not> c < CHR '' ''" "c \<noteq> CHR 0x7F"
proof -
  consider "queryByte c" | "c = CHR ''=''" | "c = CHR ''&''"
    using assms unfolding queryText_def by blast
  then have "c \<noteq> CHR ''#'' \<and> c \<noteq> CHR ''?'' \<and> \<not> c < CHR '' '' \<and> c \<noteq> CHR 0x7F"
  proof cases
    case 1
    then show ?thesis using queryByte_plain(4,5,6,7) by blast
  next
    case 2
    then show ?thesis by (simp add: less_char_def)
  next
    case 3
    then show ?thesis by (simp add: less_char_def)
  qed
  then show "c \<noteq> CHR ''#''" "c \<noteq> CHR ''?''" "\<not> c < CHR '' ''" "c \<noteq> CHR 0x7F"
    by blast+
qed

lemma Join_snoc:
  "strings_Join sep (ps @ [p]) = (if ps = [] then p else strings_Join sep ps @ sep @ p)"
  by (induction sep ps rule: strings_Join.induct) auto

lemma Join_pairs_Nil: "strings_Join ''&'' (map encodePair ps) = [] \<longleftrightarrow> ps = []"
proof (cases ps)
  case Nil
  then show ?thesis by simp
next
  case (Cons p ps')
  then show ?thesis
    using encodePair_nonempty [of p] by (cases ps') auto
qed

lemma url_Parse_String:
  assumes "url_reparses L u" and "queryText rq" and "rq \<noteq> []"
  shows "url_Parse L (url_String (u\<lparr>RawQuery := rq\<rparr>)) = Some (u\<lparr>RawQuery := rq, ForceQuery := False\<rparr>)"
proof -
  let ?pre = "Hier u @ CHR ''?'' # rq"
  have hier: "url_parseHier L (Hier u) = Some (Hier u)" "CHR ''?'' \<notin> set (Hier u)"
    "CHR ''#'' \<notin> set (Hier u)" "\<not> stringContainsCTLByte (Hier u)"
    and frag: "EscFragment u = [] \<or> url_parseFragment L (EscFragment u) = Some (EscFragment u)"
    using assms(1) by (auto simp: url_reparses_def)
  have nohash: "CHR ''#'' \<notin> set ?pre"
    using hier(3) queryText_plain(1) [OF assms(2)] by auto
  have str: "url_String (u\<lparr>RawQuery := rq\<rparr>)
      = (if EscFragment u = [] then ?pre else ?pre @ CHR ''#'' # EscFragment u)"
    using assms(3) by (simp add: url_String_def)
  have cut1: "strings_Cut CHR ''#'' (url_String (u\<lparr>RawQuery := rq\<rparr>)) = (?pre, EscFragment u)"
    unfolding str using nohash Cut_notin [of "CHR ''#''" ?pre] Cut_append [of "CHR ''#''" ?pre]
    by (simp del: strings_Cut.simps)
  have ctl: "\<not> stringContainsCTLByte ?pre"
    using hier(4) queryText_plain(3,4) [OF assms(2)]
    by (auto simp: stringContainsCTLByte_def less_char_def)
  have "last ?pre = last rq" using assms(3) by simp
  moreover have "last rq \<noteq> CHR ''?''"
    using queryText_plain(2) [OF assms(2), of "last rq"] assms(3) by simp
  ultimately have force: "\<not> (?pre \<noteq> [] \<and> last ?pre = CHR ''?'' \<and> count_list ?pre CHR ''?'' = 1)"
    by simp
  have cut2: "strings_Cut CHR ''?'' ?pre = (Hier u, rq)"
    using hier(2) by (rule Cut_append)
  show ?thesis
    unfolding url_Parse_def cut1 using ctl force cut2 hier(1) frag
    by (auto simp del: strings_Cut.simps)
qed

text \<open>The query \<open>Sign\<close> encodes, the message it signs and the query of the URL it returns.\<close>

definition signQuery :: "golib \<Rightarrow> HMACSigner \<Rightarrow> URL \<Rightarrow> Duration \<Rightarrow> Values" where
  "signQuery L s u D =
     (if D \<noteq> 0 then values_Set (url_Query u) ''expires'' (time_Format L (now s () + D))
      else url_Query u)"

definition signMessage :: "golib \<Rightarrow> HMACSigner \<Rightarrow> URL \<Rightarrow> Duration \<Rightarrow> string" where
  "signMessage L s u D = url_String (u\<lparr>RawQuery := values_Encode (signQuery L s u D)\<rparr>)"

definition signedQuery :: "golib \<Rightarrow> HMACSigner \<Rightarrow> (bytes \<Rightarrow> bytes) \<Rightarrow> URL \<Rightarrow> Duration \<Rightarrow> string" where
  "signedQuery L s h u D =
     strings_Join ''&'' (map encodePair
       (values_pairs (signQuery L s u D) @ [(Signature, EncodeToString (h (signMessage L s u D)))]))"

lemma wf_signQuery: "values_wf (signQuery L s u D)"
  by (simp add: signQuery_def wf_Set wf_url_Query)

lemma encodePair_Signature:
  "encodePair (Signature, EncodeToString bs) = Signature @ ''='' @ EncodeToString bs"
  by (simp add: encodePair_def QueryEscape_Signature QueryEscape_EncodeToString)

lemma Sign_result:
  assumes "url_Parse L U = Some u" and "hasher s () = Inr h"
  shows "Sign L s U D = Done (url_String (u\<lparr>RawQuery := signedQuery L s h u D\<rparr>))"
proof -
  let ?q = "signQuery L s u D"
  let ?sig = "EncodeToString (h (signMessage L s u D))"
  have enc: "values_Encode ?q = strings_Join ''&'' (map encodePair (values_pairs ?q))"
    by (rule values_Encode_pairs)
  have "signedQuery L s h u D
      = strings_Join ''&'' (map encodePair (values_pairs ?q) @ [encodePair (Signature, ?sig)])"
    by (simp add: signedQuery_def)
  also have "\<dots> = (if map encodePair (values_pairs ?q) = [] then encodePair (Signature, ?sig)
       else strings_Join ''&'' (map encodePair (values_pairs ?q)) @ ''&''
            @ encodePair (Signature, ?sig))"
    by (rule Join_snoc)
  finally have sq: "signedQuery L s h u D
      = (if values_Encode ?q = [] then Signature @ ''='' @ ?sig
         else values_Encode ?q @ ''&'' @ Signature @ ''='' @ ?sig)"
    by (simp add: enc Join_pairs_Nil encodePair_Signature)
  show ?thesis
    using assms sq
    by (simp add: Sign_def sumURLString_def UnsafeBytes_def Let_def signQuery_def signMessage_def)
qed

lemma signedQuery_text: "queryText (signedQuery L s h u D)" "signedQuery L s h u D \<noteq> []"
  by (simp_all add: signedQuery_def queryText_pairs Join_pairs_Nil del: map_append)

lemma Sign_reparses:
  assumes "url_Parse L U = Some u" and "hasher s () = Inr h" and "url_reparses L u"
  shows "\<exists>signed. Sign L s U D = Done signed
           \<and> url_Parse L signed = Some (u\<lparr>RawQuery := signedQuery L s h u D, ForceQuery := False\<rparr>)"
  using Sign_result [OF assms(1,2)] url_Parse_String [OF assms(3) signedQuery_text]
  by simp

lemma Query_signed:
  "url_Query (u\<lparr>RawQuery := signedQuery L s h u D, ForceQuery := False\<rparr>)
     = values_Add (parseQuery [] (values_Encode (signQuery L s u D))) Signature
         (EncodeToString (h (signMessage L s u D)))"
  by (simp add: url_Query_def signedQuery_def parseQuery_pairs values_Encode_pairs del: map_append)

lemma lookup_Query_signed:
  "values_lookup (url_Query (u\<lparr>RawQuery := signedQuery L s h u D, ForceQuery := False\<rparr>)) k
     = (if k = Signature
        then values_lookup (signQuery L s u D) Signature @ [EncodeToString (h (signMessage L s u D))]
        else values_lookup (signQuery L s u D) k)"
proof -
  have "distinct (map fst (signQuery L s u D))"
    using wf_signQuery by (simp add: values_wf_def)
  then show ?thesis
    by (simp add: Query_signed lookup_Add lookup_parseQuery_Encode)
qed

lemma Encode_nonempty:
  assumes "values_wf v" and "values_lookup v k \<noteq> []"
  shows "values_Encode v \<noteq> []"
proof -
  have "k \<in> set (sort (map fst v))"
    using wf_keys [OF assms(1)] assms(2) by auto
  then have "values_pairs v \<noteq> []"
    using assms(2) unfolding values_pairs_def by auto
  then show ?thesis by (simp add: values_Encode_pairs Join_pairs_Nil)
qed

text \<open>
  \<open>Verify\<close> on the URL that \<open>Sign\<close> returned, read back by \<open>url.Parse\<close>, by a signer with
  the same keyed hash (its clock may differ): when the URL given to \<open>Sign\<close> had no
  \<open>signature\<close> parameter, the tag is not empty, and the signed message had a query or the
  URL did not end in a lone \<open>?\<close>, the signature is accepted and the outcome is that of
  the check of the expiry.
\<close>

lemma Verify_signed:
  assumes hs: "hasher s' () = Inr h"
    and nosig: "values_lookup (url_Query u) Signature = []"
    and tag: "h (signMessage L s u D) \<noteq> []"
    and fq: "\<not> ForceQuery u \<or> D \<noteq> 0"
  shows "Verify L s' (u\<lparr>RawQuery := signedQuery L s h u D, ForceQuery := False\<rparr>)
     = (u\<lparr>RawQuery := values_Encode (signQuery L s u D), ForceQuery := False\<rparr>,
        verifyExpiration L s'
          (values_Del (url_Query (u\<lparr>RawQuery := signedQuery L s h u D, ForceQuery := False\<rparr>))
             Signature))"
    and "values_Get (values_Del (url_Query (u\<lparr>RawQuery := signedQuery L s h u D,
             ForceQuery := False\<rparr>)) Signature) Expiration
           = values_Get (signQuery L s u D) Expiration"
proof -
  let ?q = "signQuery L s u D"
  let ?sig = "EncodeToString (h (signMessage L s u D))"
  let ?u' = "u\<lparr>RawQuery := signedQuery L s h u D, ForceQuery := False\<rparr>"
  let ?q' = "values_Del (url_Query ?u') Signature"
  have sk: "''expires'' \<noteq> Signature" "Expiration \<noteq> Signature"
    by (simp_all add: Signature_def Expiration_def)
  have nosig': "values_lookup ?q Signature = []"
    using nosig sk(1) by (simp add: signQuery_def lookup_Set)
  have get: "values_Get (url_Query ?u') Signature = ?sig"
    by (simp add: values_Get_def lookup_Query_signed nosig')
  have ne: "?sig \<noteq> []" using tag by (rule EncodeToString_nonempty)
  have dec: "DecodeString (values_Get (url_Query ?u') Signature) = Some (h (signMessage L s u D))"
    by (simp add: get DecodeString_EncodeToString)
  have look: "values_lookup ?q' k = values_lookup ?q k" for k
    using nosig' by (simp add: lookup_Del lookup_Query_signed)
  have enc: "values_Encode ?q' = values_Encode ?q"
    using look by (intro Encode_cong) (simp_all add: wf_Del wf_url_Query wf_signQuery)
  have "values_Encode ?q \<noteq> []" if "D \<noteq> 0"
  proof -
    have "values_lookup ?q ''expires'' \<noteq> []" using that by (simp add: signQuery_def lookup_Set)
    then show ?thesis using wf_signQuery Encode_nonempty by blast
  qed
  then have msg: "url_String (?u'\<lparr>RawQuery := values_Encode ?q'\<rparr>) = signMessage L s u D"
    using fq by (auto simp: enc signMessage_def url_String_def)
  have upd: "?u'\<lparr>RawQuery := values_Encode ?q'\<rparr>
      = u\<lparr>RawQuery := values_Encode ?q, ForceQuery := False\<rparr>"
    by (simp add: enc)
  show "Verify L s' ?u' = (u\<lparr>RawQuery := values_Encode ?q, ForceQuery := False\<rparr>,
      verifyExpiration L s' ?q')"
    using ne get hs msg upd
    by (simp add: Verify_decoded [OF _ dec] Let_def)
  show "values_Get ?q' Expiration = values_Get ?q Expiration"
    by (simp add: values_Get_def look)
qed

lemma verifyExpiration_cases:
  "verifyExpiration L s q =
     (if values_Get q Expiration = [] then Done ()
      else case time_Parse L (values_Get q Expiration) of
             None \<Rightarrow> Panic ExpirationFormatPanic
           | Some expires \<Rightarrow> if expires < now s () then Failed ErrExpired else Done ())"
  by (simp add: verifyExpiration_def)

lemma Get_signQuery:
  "values_Get (signQuery L s u D) Expiration
     = (if D \<noteq> 0 then time_Format L (now s () + D) else values_Get (url_Query u) Expiration)"
  by (simp add: signQuery_def values_Get_def lookup_Set Expiration_def)




text \<open>
  C3, as the code has it. A URL without a \<open>signature\<close> parameter of its own is signed at
  the instant \<open>now s ()\<close> with \<open>D > 0\<close>. \<open>Verify\<close> at a clock reading \<open>t\<close> succeeds when \<open>t\<close>
  is not after the instant of signing plus \<open>D\<close> (the boundary included) and returns the
  expired error when \<open>t\<close> is after it. The library is assumed to read back what it prints,
  and to print an instant as a text that is not empty.
\<close>

theorem Verify_expiry_boundary:
  assumes "url_Parse L U = Some u" and "url_reparses L u"
    and "hasher s () = Inr h" and "\<And>m. h m \<noteq> []"
    and "Signature \<notin> fst ` set (url_Query u)"
    and "0 < D"
    and "time_Format L (now s () + D) \<noteq> []"
    and "time_Parse L (time_Format L (now s () + D)) = Some (now s () + D)"
  shows "\<exists>signed u'. Sign L s U D = Done signed \<and> url_Parse L signed = Some u'
           \<and> (\<forall>t. snd (Verify L (s\<lparr>now := \<lambda>_. t\<rparr>) u')
                  = (if now s () + D < t then Failed ErrExpired else Done ()))"
proof -
  let ?u' = "u\<lparr>RawQuery := signedQuery L s h u D, ForceQuery := False\<rparr>"
  let ?q' = "values_Del (url_Query ?u') Signature"
  obtain signed where signed: "Sign L s U D = Done signed" "url_Parse L signed = Some ?u'"
    using Sign_reparses [OF assms(1,3,2)] by blast
  have nosig: "values_lookup (url_Query u) Signature = []"
    using assms(5) by (rule lookup_absent)
  have fq: "\<not> ForceQuery u \<or> D \<noteq> 0" using assms(6) by simp
  have g: "values_Get ?q' Expiration = time_Format L (now s () + D)"
    using Verify_signed(2) [OF assms(3) nosig assms(4) fq, of L s] assms(6)
    by (simp add: Get_signQuery)
  have "snd (Verify L (s\<lparr>now := \<lambda>_. t\<rparr>) ?u')
          = (if now s () + D < t then Failed ErrExpired else Done ())" for t
  proof -
    have hs: "hasher (s\<lparr>now := \<lambda>_. t\<rparr>) () = Inr h" using assms(3) by simp
    have "snd (Verify L (s\<lparr>now := \<lambda>_. t\<rparr>) ?u') = verifyExpiration L (s\<lparr>now := \<lambda>_. t\<rparr>) ?q'"
      using Verify_signed(1) [OF hs nosig assms(4) fq, of L s] by simp
    then show ?thesis
      using assms(7,8) by (simp add: verifyExpiration_cases g)
  qed
  then show ?thesis using signed by blast
qed

theorem Verify_expiry_boundary_witness:
  "\<exists>signed u'. Sign test_lib test_signer ''https://example.com/asset'' 60000000000 = Done signed
     \<and> url_Parse test_lib signed = Some u'
     \<and> snd (Verify test_lib (test_signer\<lparr>now := \<lambda>_. 1756497660000000000\<rparr>) u') = Done ()
     \<and> snd (Verify test_lib (test_signer\<lparr>now := \<lambda>_. 1756497660000000001\<rparr>) u')
           = Failed ErrExpired"
proof -
  let ?u = "\<lparr>Hier = ''https://example.com/asset'', ForceQuery = False, RawQuery = [],
             EscFragment = []\<rparr>"
  have 1: "url_Parse test_lib ''https://example.com/asset'' = Some ?u" by code_simp
  have 2: "url_reparses test_lib ?u" by code_simp
  have 3: "hasher test_signer () = Inr (test_hmac_Sum SHA256 test_key)"
    by (simp add: test_signer_def)
  have 4: "test_hmac_Sum SHA256 test_key m \<noteq> []" for m
    by (simp add: test_hmac_Sum_def Let_def)
  have 5: "Signature \<notin> fst ` set (url_Query ?u)" by code_simp
  have 6: "(0::int) < 60000000000" by simp
  have 7: "time_Format test_lib (now test_signer () + 60000000000) \<noteq> []" by code_simp
  have 8: "time_Parse test_lib (time_Format test_lib (now test_signer () + 60000000000))
          = Some (now test_signer () + 60000000000)" by code_simp
  have n: "now test_signer () + 60000000000 = 1756497660000000000"
    by (simp add: test_signer_def test_clock_def)
  from Verify_expiry_boundary [OF 1 2 3 4 5 6 7 8]
  obtain signed u' where s: "Sign test_lib test_signer ''https://example.com/asset'' 60000000000
        = Done signed" "url_Parse test_lib signed = Some u'"
      "\<And>t. snd (Verify test_lib (test_signer\<lparr>now := \<lambda>_. t\<rparr>) u')
         = (if now test_signer () + 60000000000 < t then Failed ErrExpired else Done ())"
    by blast
  show ?thesis
    using s(1,2) by (intro exI [of _ signed] exI [of _ u']) (simp add: s(3) n)
qed

theorem Verify_expiry_boundary_counterexample:
  "Sign test_lib test_signer ''https://example.com/a?signature=x'' 60000000000
     = Done ''https://example.com/a?expires=2025-08-29T20%3A01%3A00Z&signature=x&signature=1jAU1w''
   \<and> url_Parse test_lib
        ''https://example.com/a?expires=2025-08-29T20%3A01%3A00Z&signature=x&signature=1jAU1w''
     = Some \<lparr>Hier = ''https://example.com/a'', ForceQuery = False,
             RawQuery = ''expires=2025-08-29T20%3A01%3A00Z&signature=x&signature=1jAU1w'',
             EscFragment = []\<rparr>
   \<and> snd (Verify test_lib (test_signer\<lparr>now := \<lambda>_. 1756497660000000000\<rparr>)
          \<lparr>Hier = ''https://example.com/a'', ForceQuery = False,
           RawQuery = ''expires=2025-08-29T20%3A01%3A00Z&signature=x&signature=1jAU1w'',
           EscFragment = []\<rparr>)
     = Failed ErrInvalidSignature"
  by code_simp






section \<open>Reordering and tampering\<close>

lemma verifyExpiration_cong:
  "values_Get q2 Expiration = values_Get q1 Expiration \<Longrightarrow>
     verifyExpiration L s q2 = verifyExpiration L s q1"
  by (simp add: verifyExpiration_def)

lemma url_String_cong:
  "Hier u2 = Hier u1 \<Longrightarrow> ForceQuery u2 = ForceQuery u1 \<Longrightarrow> EscFragment u2 = EscFragment u1 \<Longrightarrow>
     url_String (u2\<lparr>RawQuery := rq\<rparr>) = url_String (u1\<lparr>RawQuery := rq\<rparr>)"
  by (simp add: url_String_def)

text \<open>
  C9, as the code has it. \<open>Verify\<close> looks at the query through \<open>URL.Query\<close> only, that is
  through the list of values of each key. Two URLs with the same scheme, authority, path
  and fragment whose queries give every key the same values in the same order get the
  same outcome: parameters with different keys may come in any order. The order of the
  values of one key is part of the signed message.
\<close>

theorem Verify_invariant_under_reordering:
  assumes "Hier u2 = Hier u1" and "ForceQuery u2 = ForceQuery u1"
    and "EscFragment u2 = EscFragment u1"
    and "\<forall>k. values_lookup (url_Query u2) k = values_lookup (url_Query u1) k"
  shows "snd (Verify L s u2) = snd (Verify L s u1)"
proof -
  have look: "values_lookup (url_Query u2) k = values_lookup (url_Query u1) k" for k
    using assms(4) by blast
  have get: "values_Get (url_Query u2) Signature = values_Get (url_Query u1) Signature"
    by (simp add: values_Get_def look)
  show ?thesis
  proof (cases "values_Get (url_Query u1) Signature = []")
    case True
    then show ?thesis using get by (simp add: Verify_def extract_missing)
  next
    case ne: False
    show ?thesis
    proof (cases "DecodeString (values_Get (url_Query u1) Signature)")
      case None
      then show ?thesis using ne get by (simp add: Verify_def extract_undecodable)
    next
      case (Some sigBytes)
      let ?q1 = "values_Del (url_Query u1) Signature"
      let ?q2 = "values_Del (url_Query u2) Signature"
      have ne2: "values_Get (url_Query u2) Signature \<noteq> []" using ne get by simp
      have dec2: "DecodeString (values_Get (url_Query u2) Signature) = Some sigBytes"
        using Some get by simp
      have lk: "values_lookup ?q2 k = values_lookup ?q1 k" for k
        by (simp add: lookup_Del look)
      have enc: "values_Encode ?q2 = values_Encode ?q1"
        using lk by (intro Encode_cong) (simp_all add: wf_Del wf_url_Query)
      have str: "url_String (u2\<lparr>RawQuery := values_Encode ?q1\<rparr>)
                   = url_String (u1\<lparr>RawQuery := values_Encode ?q1\<rparr>)"
        using assms(1,2,3) by (rule url_String_cong)
      have "values_Get ?q2 Expiration = values_Get ?q1 Expiration"
        by (simp add: values_Get_def lk)
      then have ex: "verifyExpiration L s ?q2 = verifyExpiration L s ?q1"
        by (rule verifyExpiration_cong)
      show ?thesis
        by (cases "hasher s ()")
           (simp_all add: Verify_decoded [OF ne Some] Verify_decoded [OF ne2 dec2] Let_def enc str ex)
    qed
  qed
qed

theorem Verify_invariant_under_reordering_witness:
  "snd (Verify test_lib test_signer
          \<lparr>Hier = ''https://example.com/p'', ForceQuery = False,
           RawQuery = ''signature=noAJyQ&b=2&a=1'', EscFragment = []\<rparr>) = Done ()"
proof -
  let ?u1 = "\<lparr>Hier = ''https://example.com/p'', ForceQuery = False,
              RawQuery = ''a=1&b=2&signature=noAJyQ'', EscFragment = []\<rparr>"
  let ?u2 = "\<lparr>Hier = ''https://example.com/p'', ForceQuery = False,
              RawQuery = ''signature=noAJyQ&b=2&a=1'', EscFragment = []\<rparr>"
  have q1: "url_Query ?u1 = [(''a'', [''1'']), (''b'', [''2'']), (''signature'', [''noAJyQ''])]"
    by code_simp
  have q2: "url_Query ?u2 = [(''signature'', [''noAJyQ'']), (''b'', [''2'']), (''a'', [''1''])]"
    by code_simp
  have 4: "\<forall>k. values_lookup (url_Query ?u2) k = values_lookup (url_Query ?u1) k"
    unfolding q1 q2 by (simp add: values_lookup_def)
  have v: "snd (Verify test_lib test_signer ?u1) = Done ()" by code_simp
  have "snd (Verify test_lib test_signer ?u2) = snd (Verify test_lib test_signer ?u1)"
    by (rule Verify_invariant_under_reordering [OF _ _ _ 4]) simp_all
  then show ?thesis using v by simp
qed

theorem Verify_reordering_counterexample:
  "Sign test_lib test_signer ''https://example.com/p?a=1&a=2'' 0
     = Done ''https://example.com/p?a=1&a=2&signature=nn0JyA''
   \<and> snd (Verify test_lib test_signer
          \<lparr>Hier = ''https://example.com/p'', ForceQuery = False,
           RawQuery = ''a=1&a=2&signature=nn0JyA'', EscFragment = []\<rparr>) = Done ()
   \<and> snd (Verify test_lib test_signer
          \<lparr>Hier = ''https://example.com/p'', ForceQuery = False,
           RawQuery = ''a=2&a=1&signature=nn0JyA'', EscFragment = []\<rparr>)
     = Failed ErrInvalidSignature"
  by code_simp

lemma Encode_lookup_inj:
  assumes "values_wf a" "values_wf b" "values_Encode a = values_Encode b"
  shows "values_lookup a k = values_lookup b k"
proof -
  have "distinct (map fst a)" "distinct (map fst b)"
    using assms(1,2) by (simp_all add: values_wf_def)
  then have "values_lookup a k = values_lookup (parseQuery [] (values_Encode a)) k"
    and "values_lookup b k = values_lookup (parseQuery [] (values_Encode b)) k"
    by (simp_all add: lookup_parseQuery_Encode)
  then show ?thesis using assms(3) by simp
qed

lemma url_String_RawQuery_inj:
  assumes "url_String (u\<lparr>RawQuery := a\<rparr>) = url_String (u\<lparr>RawQuery := b\<rparr>)" and "b \<noteq> []"
  shows "a = b"
proof -
  define F where "F = (if EscFragment u \<noteq> [] then CHR ''#'' # EscFragment u else [])"
  have str: "url_String (u\<lparr>RawQuery := r\<rparr>)
      = Hier u @ (if ForceQuery u \<or> r \<noteq> [] then CHR ''?'' # r else []) @ F" for r
    by (simp add: url_String_def F_def)
  have "(if ForceQuery u \<or> a \<noteq> [] then CHR ''?'' # a else []) @ F = (CHR ''?'' # b) @ F"
    using assms unfolding str by simp
  then have "(if ForceQuery u \<or> a \<noteq> [] then CHR ''?'' # a else []) = CHR ''?'' # b"
    by (simp only: append_same_eq)
  then show ?thesis by (simp split: if_splits)
qed

text \<open>
  C5, as the code has it. Take a URL whose \<open>signature\<close> parameter decodes to the tag of
  its message (a URL that \<open>Sign\<close> produced, expired or not), and tamper with it as the
  package's test does: the value of a parameter other than \<open>signature\<close> is set to a new
  one and the query is encoded again. \<open>Verify\<close> then returns the invalid-signature error,
  unless the keyed hash gives the old and the new message the same tag. (A changed value
  of \<open>signature\<close> itself is not always rejected: see the counterexample.)
\<close>

theorem tampered_parameter_rejected:
  assumes "hasher s () = Inr h"
    and "values_Get (url_Query u) Signature \<noteq> []"
    and "DecodeString (values_Get (url_Query u) Signature)
           = Some (h (url_String (u\<lparr>RawQuery := values_Encode (values_Del (url_Query u) Signature)\<rparr>)))"
    and "k \<noteq> Signature"
    and "values_lookup (url_Query u) k \<noteq> [v]"
    and "h (url_String (u\<lparr>RawQuery :=
              values_Encode (values_Del (values_Set (url_Query u) k v) Signature)\<rparr>))
           = h (url_String (u\<lparr>RawQuery := values_Encode (values_Del (url_Query u) Signature)\<rparr>))
         \<Longrightarrow> url_String (u\<lparr>RawQuery :=
              values_Encode (values_Del (values_Set (url_Query u) k v) Signature)\<rparr>)
           = url_String (u\<lparr>RawQuery := values_Encode (values_Del (url_Query u) Signature)\<rparr>)"
  shows "snd (Verify L s (u\<lparr>RawQuery := values_Encode (values_Set (url_Query u) k v)\<rparr>))
           = Failed ErrInvalidSignature"
proof -
  let ?q = "url_Query u"
  let ?t = "values_Set ?q k v"
  let ?ut = "u\<lparr>RawQuery := values_Encode ?t\<rparr>"
  let ?m = "url_String (u\<lparr>RawQuery := values_Encode (values_Del ?q Signature)\<rparr>)"
  let ?m' = "url_String (u\<lparr>RawQuery := values_Encode (values_Del ?t Signature)\<rparr>)"
  have wft: "values_wf ?t" by (simp add: wf_Set wf_url_Query)
  then have "distinct (map fst ?t)" by (simp add: values_wf_def)
  then have look: "values_lookup (url_Query ?ut) k' = values_lookup ?t k'" for k'
    by (simp add: url_Query_def lookup_parseQuery_Encode)
  have get: "values_Get (url_Query ?ut) Signature = values_Get ?q Signature"
    using assms(4) by (simp add: values_Get_def look lookup_Set)
  have ne: "values_Get (url_Query ?ut) Signature \<noteq> []"
    and dec: "DecodeString (values_Get (url_Query ?ut) Signature) = Some (h ?m)"
    using assms(2,3) get by simp_all
  have "values_lookup (values_Del (url_Query ?ut) Signature) k'
          = values_lookup (values_Del ?t Signature) k'" for k'
    by (simp add: lookup_Del look)
  then have enc: "values_Encode (values_Del (url_Query ?ut) Signature)
                    = values_Encode (values_Del ?t Signature)"
    by (intro Encode_cong) (simp_all add: wf_Del wf_url_Query wft)
  have "?m' \<noteq> ?m"
  proof
    assume eq: "?m' = ?m"
    have "values_lookup (values_Del ?t Signature) k = [v]"
      using assms(4) by (simp add: lookup_Del lookup_Set)
    then have "values_Encode (values_Del ?t Signature) \<noteq> []"
      using Encode_nonempty [of "values_Del ?t Signature" k] wft by (simp add: wf_Del)
    then have "values_Encode (values_Del ?q Signature) = values_Encode (values_Del ?t Signature)"
      using eq [symmetric] by (rule url_String_RawQuery_inj [rotated])
    then have "values_lookup (values_Del ?q Signature) k = values_lookup (values_Del ?t Signature) k"
      by (intro Encode_lookup_inj) (simp_all add: wf_Del wf_url_Query wft)
    then show False
      using assms(4,5) by (simp add: lookup_Del lookup_Set)
  qed
  then have "h ?m \<noteq> h ?m'" using assms(6) by force
  then show ?thesis
    using assms(1) by (simp add: Verify_decoded [OF ne dec] Let_def enc)
qed

theorem tampered_parameter_rejected_witness:
  "snd (Verify test_lib test_signer
          \<lparr>Hier = ''https://example.com/path'', ForceQuery = False,
           RawQuery = ''a=2&signature=l4EKDw'', EscFragment = []\<rparr>)
     = Failed ErrInvalidSignature
   \<and> snd (Verify test_lib test_signer
          \<lparr>Hier = ''https://example.com/f'', ForceQuery = False,
           RawQuery = ''expires=2020-01-01T00%3A00%3A00Z&signature=9cAQFg'', EscFragment = []\<rparr>)
     = Failed ErrExpired
   \<and> snd (Verify test_lib test_signer
          \<lparr>Hier = ''https://example.com/f'', ForceQuery = False,
           RawQuery = ''expires=2030-01-01T00%3A00%3A00Z&signature=9cAQFg'', EscFragment = []\<rparr>)
     = Failed ErrInvalidSignature"
proof -
  let ?u = "\<lparr>Hier = ''https://example.com/path'', ForceQuery = False,
             RawQuery = ''a=1&signature=l4EKDw'', EscFragment = []\<rparr>"
  let ?w = "\<lparr>Hier = ''https://example.com/f'', ForceQuery = False,
             RawQuery = ''expires=2020-01-01T00%3A00%3A00Z&signature=9cAQFg'', EscFragment = []\<rparr>"
  let ?h = "test_hmac_Sum SHA256 test_key"
  have 1: "hasher test_signer () = Inr ?h" by (simp add: test_signer_def)
  have u2: "values_Get (url_Query ?u) Signature \<noteq> []" by code_simp
  have u3: "DecodeString (values_Get (url_Query ?u) Signature)
      = Some (?h (url_String (?u\<lparr>RawQuery := values_Encode (values_Del (url_Query ?u) Signature)\<rparr>)))"
    by code_simp
  have u4: "''a'' \<noteq> Signature" by (simp add: Signature_def)
  have u5: "values_lookup (url_Query ?u) ''a'' \<noteq> [''2'']" by code_simp
  have "?h (url_String (?u\<lparr>RawQuery :=
              values_Encode (values_Del (values_Set (url_Query ?u) ''a'' ''2'') Signature)\<rparr>))
        \<noteq> ?h (url_String (?u\<lparr>RawQuery := values_Encode (values_Del (url_Query ?u) Signature)\<rparr>))"
    by code_simp
  then have u6: "?h (url_String (?u\<lparr>RawQuery :=
              values_Encode (values_Del (values_Set (url_Query ?u) ''a'' ''2'') Signature)\<rparr>))
           = ?h (url_String (?u\<lparr>RawQuery := values_Encode (values_Del (url_Query ?u) Signature)\<rparr>))
         \<Longrightarrow> url_String (?u\<lparr>RawQuery :=
              values_Encode (values_Del (values_Set (url_Query ?u) ''a'' ''2'') Signature)\<rparr>)
           = url_String (?u\<lparr>RawQuery := values_Encode (values_Del (url_Query ?u) Signature)\<rparr>)"
    by blast
  have ue: "values_Encode (values_Set (url_Query ?u) ''a'' ''2'') = ''a=2&signature=l4EKDw''"
    by code_simp
  have w2: "values_Get (url_Query ?w) Signature \<noteq> []" by code_simp
  have w3: "DecodeString (values_Get (url_Query ?w) Signature)
      = Some (?h (url_String (?w\<lparr>RawQuery := values_Encode (values_Del (url_Query ?w) Signature)\<rparr>)))"
    by code_simp
  have w4: "''expires'' \<noteq> Signature" by (simp add: Signature_def)
  have w5: "values_lookup (url_Query ?w) ''expires'' \<noteq> [''2030-01-01T00:00:00Z'']" by code_simp
  have "?h (url_String (?w\<lparr>RawQuery := values_Encode (values_Del
              (values_Set (url_Query ?w) ''expires'' ''2030-01-01T00:00:00Z'') Signature)\<rparr>))
        \<noteq> ?h (url_String (?w\<lparr>RawQuery := values_Encode (values_Del (url_Query ?w) Signature)\<rparr>))"
    by code_simp
  then have w6: "?h (url_String (?w\<lparr>RawQuery := values_Encode (values_Del
              (values_Set (url_Query ?w) ''expires'' ''2030-01-01T00:00:00Z'') Signature)\<rparr>))
           = ?h (url_String (?w\<lparr>RawQuery := values_Encode (values_Del (url_Query ?w) Signature)\<rparr>))
         \<Longrightarrow> url_String (?w\<lparr>RawQuery := values_Encode (values_Del
              (values_Set (url_Query ?w) ''expires'' ''2030-01-01T00:00:00Z'') Signature)\<rparr>)
           = url_String (?w\<lparr>RawQuery := values_Encode (values_Del (url_Query ?w) Signature)\<rparr>)"
    by blast
  have we: "values_Encode (values_Set (url_Query ?w) ''expires'' ''2030-01-01T00:00:00Z'')
      = ''expires=2030-01-01T00%3A00%3A00Z&signature=9cAQFg''"
    by code_simp
  have wx: "snd (Verify test_lib test_signer ?w) = Failed ErrExpired" by code_simp
  have a: "snd (Verify test_lib test_signer (?u\<lparr>RawQuery := ''a=2&signature=l4EKDw''\<rparr>))
      = Failed ErrInvalidSignature"
    using tampered_parameter_rejected [OF 1 u2 u3 u4 u5 u6, of test_lib] by (simp only: ue)
  have b: "snd (Verify test_lib test_signer
        (?w\<lparr>RawQuery := ''expires=2030-01-01T00%3A00%3A00Z&signature=9cAQFg''\<rparr>))
      = Failed ErrInvalidSignature"
    using tampered_parameter_rejected [OF 1 w2 w3 w4 w5 w6, of test_lib] by (simp only: we)
  show ?thesis using a b wx by simp
qed

theorem tampered_signature_counterexample:
  "Sign test_lib test_signer ''https://example.com/path?a=1'' 0
     = Done ''https://example.com/path?a=1&signature=l4EKDw''
   \<and> snd (Verify test_lib test_signer
          \<lparr>Hier = ''https://example.com/path'', ForceQuery = False,
           RawQuery = ''a=1&signature=l4EKDw'', EscFragment = []\<rparr>) = Done ()
   \<and> values_Encode (values_Set (url_Query
          \<lparr>Hier = ''https://example.com/path'', ForceQuery = False,
           RawQuery = ''a=1&signature=l4EKDw'', EscFragment = []\<rparr>)
        ''signature'' (''l4EKDw'' @ [CHR 0x0A])) = ''a=1&signature=l4EKDw%0A''
   \<and> snd (Verify test_lib test_signer
          \<lparr>Hier = ''https://example.com/path'', ForceQuery = False,
           RawQuery = ''a=1&signature=l4EKDw%0A'', EscFragment = []\<rparr>) = Done ()
   \<and> snd (Verify test_lib test_signer
          \<lparr>Hier = ''https://example.com/path'', ForceQuery = False,
           RawQuery = ''a=1&signature='', EscFragment = []\<rparr>) = Failed ErrMissingSignature"
  by code_simp

end
